theory Spec2Isabelle
  imports Main "HOL-Library.Char_ord" "HOL-Library.List_Lexorder"
begin

section \<open>Status codes and results\<close>

text \<open>
  The transaction classes of \<^verbatim>\<open>src/fdb/CustomTransaction.cc\<close> return
  \<^verbatim>\<open>CoTryTask<T>\<close>: either a status (\<^verbatim>\<open>makeError(code, message)\<close>) or a value.
  The status codes the file produces are \<^verbatim>\<open>StatusCode::kInvalidArg\<close>,
  \<^verbatim>\<open>StatusCode::kIOError\<close>, \<^verbatim>\<open>TransactionCode::kConflict\<close> and
  \<^verbatim>\<open>RPCCode::kTimeout\<close>. The message text of a status is not modelled.
\<close>

datatype status_code_t = kInvalidArg | kIOError | kConflict | kTimeout

type_synonym 'a Result = "status_code_t + 'a"

section \<open>The C interface of the KV client library\<close>

text \<open>
  \<^verbatim>\<open>kvstore_client.h\<close> (the Rust client's C header) is not part of the sources at
  hand; the transaction classes call it. Its handles are pointers: \<open>None\<close> is the null
  pointer. A \<^verbatim>\<open>KvResult\<close> carries \<^verbatim>\<open>success\<close> and \<^verbatim>\<open>error_code\<close>
  (the three codes that \<^verbatim>\<open>commit\<close> distinguishes, and any other); a
  \<^verbatim>\<open>KvBinaryData\<close> is a data pointer with a length, \<open>None\<close> when the pointer is
  null; a \<^verbatim>\<open>KvPairArray\<close> is a counted array of key/value pairs. Byte strings are
  \<open>string\<close>s (a \<open>char\<close> is a byte), always passed as pointer and length, never as
  NUL-terminated text; a length is taken to fit the \<^verbatim>\<open>int\<close> it is cast to.
\<close>

datatype kv_error_code =
    KV_ERROR_TRANSACTION_CONFLICT
  | KV_ERROR_TRANSACTION_TIMEOUT
  | KV_ERROR_TRANSACTION_NOT_FOUND
  | KV_ERROR_OTHER

record KvResult =
  success :: bool
  error_code :: kv_error_code

datatype kv_function_result = KV_FUNCTION_SUCCESS | KV_FUNCTION_ERROR

type_synonym KvTransactionHandle = "nat option"
type_synonym KvReadTransactionHandle = "nat option"
type_synonym KvBinaryData = "string option"
type_synonym KvPairArray = "(string \<times> string) list"

text \<open>
  The client library is a parameter of the model: a record of its functions over the state
  \<open>'e\<close> of the engine behind it. Each function stands for the asynchronous call together
  with the retrieval of the completed future's result
  (\<^verbatim>\<open>kv_future_get_value_result\<close>, \<^verbatim>\<open>kv_future_get_kv_array_result\<close>,
  \<^verbatim>\<open>kv_future_get_void_result\<close>, \<^verbatim>\<open>kv_future_get_transaction\<close>,
  \<^verbatim>\<open>kv_future_get_read_transaction\<close>): the futures are taken to complete.
  The arguments of the range calls are, in order: handle, begin key, end key,
  \<^verbatim>\<open>begin_offset\<close>, \<^verbatim>\<open>begin_or_equal\<close>, \<^verbatim>\<open>end_offset\<close>,
  \<^verbatim>\<open>end_or_equal\<close>, \<^verbatim>\<open>limit\<close>.

  \<^verbatim>\<open>kv_pair_array_free\<close> takes the pair array by pointer and may write to the
  struct. The range reads compare \<^verbatim>\<open>pair_array.count\<close> with the limit after that
  call, so what the call leaves in the field is part of the interface: the function
  \<open>kv_pair_array_free\<close> of the record gives, for the array the engine returned, the value
  of \<^verbatim>\<open>count\<close> after the call.
\<close>

record 'e kvstore_client =
  kv_read_transaction_begin :: "int \<Rightarrow> 'e \<Rightarrow> KvReadTransactionHandle \<times> 'e"
  kv_read_transaction_get ::
    "KvReadTransactionHandle \<Rightarrow> string \<Rightarrow> 'e \<Rightarrow> (KvResult \<times> KvBinaryData) \<times> 'e"
  kv_read_transaction_get_range ::
    "KvReadTransactionHandle \<Rightarrow> string \<Rightarrow> string \<Rightarrow> int \<Rightarrow> int \<Rightarrow> int \<Rightarrow> int \<Rightarrow> int \<Rightarrow> 'e
      \<Rightarrow> (KvResult \<times> KvPairArray) \<times> 'e"
  kv_read_transaction_destroy :: "KvReadTransactionHandle \<Rightarrow> 'e \<Rightarrow> 'e"
  kv_transaction_begin :: "int \<Rightarrow> 'e \<Rightarrow> KvTransactionHandle \<times> 'e"
  kv_transaction_get ::
    "KvTransactionHandle \<Rightarrow> string \<Rightarrow> 'e \<Rightarrow> (KvResult \<times> KvBinaryData) \<times> 'e"
  kv_transaction_get_range ::
    "KvTransactionHandle \<Rightarrow> string \<Rightarrow> string \<Rightarrow> int \<Rightarrow> int \<Rightarrow> int \<Rightarrow> int \<Rightarrow> int \<Rightarrow> 'e
      \<Rightarrow> (KvResult \<times> KvPairArray) \<times> 'e"
  kv_transaction_set :: "KvTransactionHandle \<Rightarrow> string \<Rightarrow> string \<Rightarrow> 'e \<Rightarrow> KvResult \<times> 'e"
  kv_transaction_delete :: "KvTransactionHandle \<Rightarrow> string \<Rightarrow> 'e \<Rightarrow> KvResult \<times> 'e"
  kv_transaction_set_versionstamped_key ::
    "KvTransactionHandle \<Rightarrow> string \<Rightarrow> string \<Rightarrow> 'e \<Rightarrow> kv_function_result \<times> 'e"
  kv_transaction_set_versionstamped_value ::
    "KvTransactionHandle \<Rightarrow> string \<Rightarrow> string \<Rightarrow> 'e \<Rightarrow> kv_function_result \<times> 'e"
  kv_transaction_commit :: "KvTransactionHandle \<Rightarrow> 'e \<Rightarrow> KvResult \<times> 'e"
  kv_transaction_abort :: "KvTransactionHandle \<Rightarrow> 'e \<Rightarrow> KvResult \<times> 'e"
  kv_pair_array_free :: "KvPairArray \<Rightarrow> nat"

section \<open>The transaction classes\<close>

text \<open>
  \<^verbatim>\<open>KeySelector\<close> and \<^verbatim>\<open>GetRangeResult\<close> of the transaction interface, and the
  member variables of the two classes. A member \<^verbatim>\<open>name_\<close> of the source is the
  field \<open>name_m\<close> here (a name cannot end in an underscore), and the fields of the
  read-only class carry the prefix \<open>ro_\<close>. \<^verbatim>\<open>client_handle_\<close> is a pointer to
  the client (the parameter above): the field records whether it is non-null.
\<close>

record KeySelector =
  key :: string
  inclusive :: bool

record GetRangeResult =
  kvs :: "(string \<times> string) list"
  hasMore :: bool

record CustomReadOnlyTransaction =
  ro_read_version_m :: "int option"
  ro_cancelled_m :: bool
  ro_reset_m :: bool
  ro_client_handle_m :: bool

record CustomTransaction =
  read_version_m :: "int option"
  cancelled_m :: bool
  reset_m :: bool
  committed_m :: bool
  committed_version_m :: int
  client_handle_m :: bool
  transaction_handle_m :: KvTransactionHandle

text \<open>\<^verbatim>\<open>static_cast<size_t>(limit)\<close> of a 32-bit \<^verbatim>\<open>limit\<close> on a 64-bit target.\<close>

definition static_cast_size_t :: "int \<Rightarrow> nat" where
  "static_cast_size_t l = nat (l mod 2 ^ 64)"

subsection \<open>CustomReadOnlyTransaction\<close>

definition ro_setReadVersion ::
  "int \<Rightarrow> CustomReadOnlyTransaction \<Rightarrow> CustomReadOnlyTransaction" where
  "ro_setReadVersion v t = t\<lparr>ro_read_version_m := Some v\<rparr>"

definition ro_snapshotGet ::
  "'e kvstore_client \<Rightarrow> string \<Rightarrow> CustomReadOnlyTransaction \<Rightarrow> 'e
    \<Rightarrow> (string option) Result \<times> CustomReadOnlyTransaction \<times> 'e" where
  "ro_snapshotGet cl k t e =
    (if ro_cancelled_m t \<or> ro_reset_m t then (Inl kInvalidArg, t, e)
     else if \<not> ro_client_handle_m t then (Inl kIOError, t, e)
     else
       (case kv_read_transaction_begin cl
               (case ro_read_version_m t of None \<Rightarrow> 0 | Some v \<Rightarrow> v) e of
          (None, e1) \<Rightarrow> (Inl kIOError, t, e1)
        | (Some h, e1) \<Rightarrow>
            (case kv_read_transaction_get cl (Some h) k e1 of
               ((result, data), e2) \<Rightarrow>
                 (case data of
                    Some d \<Rightarrow>
                      if success result
                      then (Inr (Some d), t, kv_read_transaction_destroy cl (Some h) e2)
                      else (Inr None, t, kv_read_transaction_destroy cl (Some h) e2)
                  | None \<Rightarrow> (Inr None, t, kv_read_transaction_destroy cl (Some h) e2)))))"

text \<open>The read-only \<^verbatim>\<open>get\<close> is a placeholder in the source: it returns no value.\<close>

definition ro_get ::
  "'e kvstore_client \<Rightarrow> string \<Rightarrow> CustomReadOnlyTransaction \<Rightarrow> 'e
    \<Rightarrow> (string option) Result \<times> CustomReadOnlyTransaction \<times> 'e" where
  "ro_get cl k t e =
    (if ro_cancelled_m t \<or> ro_reset_m t then (Inl kInvalidArg, t, e)
     else (Inr None, t, e))"

definition ro_snapshotGetRange ::
  "'e kvstore_client \<Rightarrow> KeySelector \<Rightarrow> KeySelector \<Rightarrow> int \<Rightarrow> CustomReadOnlyTransaction \<Rightarrow> 'e
    \<Rightarrow> GetRangeResult Result \<times> CustomReadOnlyTransaction \<times> 'e" where
  "ro_snapshotGetRange cl begin_sel end_sel limit t e =
    (if ro_cancelled_m t \<or> ro_reset_m t then (Inl kInvalidArg, t, e)
     else if \<not> ro_client_handle_m t then (Inl kIOError, t, e)
     else
       (case kv_read_transaction_begin cl
               (case ro_read_version_m t of None \<Rightarrow> 0 | Some v \<Rightarrow> v) e of
          (None, e1) \<Rightarrow> (Inl kIOError, t, e1)
        | (Some h, e1) \<Rightarrow>
            (case kv_read_transaction_get_range cl (Some h) (key begin_sel) (key end_sel)
                    0 (if inclusive begin_sel then 0 else 1)
                    0 (if inclusive end_sel then 1 else 0) limit e1 of
               ((result, pair_array), e2) \<Rightarrow>
                 if success result
                 then (Inr \<lparr>kvs = pair_array,
                            hasMore = (kv_pair_array_free cl pair_array =
                                       static_cast_size_t limit)\<rparr>,
                       t, kv_read_transaction_destroy cl (Some h) e2)
                 else (Inl kIOError, t, kv_read_transaction_destroy cl (Some h) e2))))"

text \<open>The read-only \<^verbatim>\<open>getRange\<close> is a placeholder in the source: an empty page.\<close>

definition ro_getRange ::
  "'e kvstore_client \<Rightarrow> KeySelector \<Rightarrow> KeySelector \<Rightarrow> int \<Rightarrow> CustomReadOnlyTransaction \<Rightarrow> 'e
    \<Rightarrow> GetRangeResult Result \<times> CustomReadOnlyTransaction \<times> 'e" where
  "ro_getRange cl begin_sel end_sel limit t e =
    (if ro_cancelled_m t \<or> ro_reset_m t then (Inl kInvalidArg, t, e)
     else (Inr \<lparr>kvs = [], hasMore = False\<rparr>, t, e))"

definition ro_cancel ::
  "'e kvstore_client \<Rightarrow> CustomReadOnlyTransaction \<Rightarrow> 'e
    \<Rightarrow> unit Result \<times> CustomReadOnlyTransaction \<times> 'e" where
  "ro_cancel cl t e =
    (if \<not> ro_cancelled_m t then (Inr (), t\<lparr>ro_cancelled_m := True\<rparr>, e)
     else (Inr (), t, e))"

definition ro_reset :: "CustomReadOnlyTransaction \<Rightarrow> CustomReadOnlyTransaction" where
  "ro_reset t = t\<lparr>ro_reset_m := True, ro_cancelled_m := False, ro_read_version_m := None\<rparr>"

subsection \<open>CustomTransaction\<close>

definition ensureTransaction ::
  "'e kvstore_client \<Rightarrow> CustomTransaction \<Rightarrow> 'e \<Rightarrow> unit Result \<times> CustomTransaction \<times> 'e" where
  "ensureTransaction cl t e =
    (if transaction_handle_m t \<noteq> None then (Inr (), t, e)
     else if \<not> client_handle_m t then (Inl kIOError, t, e)
     else
       (case kv_transaction_begin cl 30 e of
          (None, e1) \<Rightarrow> (Inl kIOError, t\<lparr>transaction_handle_m := None\<rparr>, e1)
        | (Some h, e1) \<Rightarrow> (Inr (), t\<lparr>transaction_handle_m := Some h\<rparr>, e1)))"

definition setReadVersion :: "int \<Rightarrow> CustomTransaction \<Rightarrow> CustomTransaction" where
  "setReadVersion v t = t\<lparr>read_version_m := Some v\<rparr>"

text \<open>
  The guard at the head of every read and write operation of the class:
  \<^verbatim>\<open>cancelled_.load() || reset_.load() || committed_.load()\<close>.
\<close>

definition finished :: "CustomTransaction \<Rightarrow> bool" where
  "finished t = (cancelled_m t \<or> reset_m t \<or> committed_m t)"

definition snapshotGet ::
  "'e kvstore_client \<Rightarrow> string \<Rightarrow> CustomTransaction \<Rightarrow> 'e
    \<Rightarrow> (string option) Result \<times> CustomTransaction \<times> 'e" where
  "snapshotGet cl k t e =
    (if finished t then (Inl kInvalidArg, t, e)
     else if \<not> client_handle_m t then (Inl kIOError, t, e)
     else
       (case kv_read_transaction_begin cl
               (case read_version_m t of None \<Rightarrow> 0 | Some v \<Rightarrow> v) e of
          (None, e1) \<Rightarrow> (Inl kIOError, t, e1)
        | (Some h, e1) \<Rightarrow>
            (case kv_read_transaction_get cl (Some h) k e1 of
               ((result, data), e2) \<Rightarrow>
                 (case data of
                    Some d \<Rightarrow>
                      if success result
                      then (Inr (Some d), t, kv_read_transaction_destroy cl (Some h) e2)
                      else (Inr None, t, kv_read_transaction_destroy cl (Some h) e2)
                  | None \<Rightarrow> (Inr None, t, kv_read_transaction_destroy cl (Some h) e2)))))"

definition get ::
  "'e kvstore_client \<Rightarrow> string \<Rightarrow> CustomTransaction \<Rightarrow> 'e
    \<Rightarrow> (string option) Result \<times> CustomTransaction \<times> 'e" where
  "get cl k t e =
    (if finished t then (Inl kInvalidArg, t, e)
     else
       (case ensureTransaction cl t e of
          (Inl err, t1, e1) \<Rightarrow> (Inl err, t1, e1)
        | (Inr u, t1, e1) \<Rightarrow>
            (case kv_transaction_get cl (transaction_handle_m t1) k e1 of
               ((result, data), e2) \<Rightarrow>
                 (case data of
                    Some d \<Rightarrow> if success result then (Inr (Some d), t1, e2)
                              else (Inr None, t1, e2)
                  | None \<Rightarrow> (Inr None, t1, e2)))))"

definition getRange ::
  "'e kvstore_client \<Rightarrow> KeySelector \<Rightarrow> KeySelector \<Rightarrow> int \<Rightarrow> CustomTransaction \<Rightarrow> 'e
    \<Rightarrow> GetRangeResult Result \<times> CustomTransaction \<times> 'e" where
  "getRange cl begin_sel end_sel limit t e =
    (if finished t then (Inl kInvalidArg, t, e)
     else
       (case ensureTransaction cl t e of
          (Inl err, t1, e1) \<Rightarrow> (Inl err, t1, e1)
        | (Inr u, t1, e1) \<Rightarrow>
            (case kv_transaction_get_range cl (transaction_handle_m t1)
                    (key begin_sel) (key end_sel)
                    0 (if inclusive begin_sel then 0 else 1)
                    0 (if inclusive end_sel then 1 else 0) limit e1 of
               ((result, pair_array), e2) \<Rightarrow>
                 if success result
                 then (Inr \<lparr>kvs = pair_array,
                            hasMore = (kv_pair_array_free cl pair_array \<noteq> 0 \<and>
                                       kv_pair_array_free cl pair_array =
                                       static_cast_size_t limit)\<rparr>,
                       t1, e2)
                 else (Inl kIOError, t1, e2))))"

text \<open>
  \<^verbatim>\<open>snapshotGetRange\<close> of the read-write class delegates to \<^verbatim>\<open>getRange\<close>. In
  both range reads the \<^verbatim>\<open>pair_array.count\<close> pairs of the array are copied one by one
  into \<^verbatim>\<open>kvs\<close>, then \<^verbatim>\<open>kv_pair_array_free(&pair_array)\<close> is called, and
  only then is \<^verbatim>\<open>pair_array.count\<close> compared with the limit: \<^verbatim>\<open>kvs\<close> is the
  array as the engine returned it, and \<^verbatim>\<open>hasMore\<close> is computed from the count that
  the free left. The free is called on the success branch only.
\<close>

definition snapshotGetRange ::
  "'e kvstore_client \<Rightarrow> KeySelector \<Rightarrow> KeySelector \<Rightarrow> int \<Rightarrow> CustomTransaction \<Rightarrow> 'e
    \<Rightarrow> GetRangeResult Result \<times> CustomTransaction \<times> 'e" where
  "snapshotGetRange cl begin_sel end_sel limit t e = getRange cl begin_sel end_sel limit t e"

text \<open>
  \<^verbatim>\<open>cancelled_.compare_exchange_strong(expected = false, true)\<close> succeeds exactly when the
  flag was false. The result of the abort is only logged.
\<close>

definition cancel ::
  "'e kvstore_client \<Rightarrow> CustomTransaction \<Rightarrow> 'e \<Rightarrow> unit Result \<times> CustomTransaction \<times> 'e" where
  "cancel cl t e =
    (if \<not> cancelled_m t then
       (case transaction_handle_m t of
          None \<Rightarrow> (Inr (), t\<lparr>cancelled_m := True\<rparr>, e)
        | Some h \<Rightarrow>
            (case kv_transaction_abort cl (Some h) e of
               (result, e1) \<Rightarrow>
                 (Inr (), t\<lparr>cancelled_m := True, transaction_handle_m := None\<rparr>, e1)))
     else (Inr (), t, e))"

definition reset :: "CustomTransaction \<Rightarrow> CustomTransaction" where
  "reset t = t\<lparr>reset_m := True, cancelled_m := False, committed_m := False,
               committed_version_m := - 1, read_version_m := None\<rparr>"

text \<open>Both conflict declarations are placeholders in the source: they call nothing.\<close>

definition addReadConflict ::
  "'e kvstore_client \<Rightarrow> string \<Rightarrow> CustomTransaction \<Rightarrow> 'e
    \<Rightarrow> unit Result \<times> CustomTransaction \<times> 'e" where
  "addReadConflict cl k t e =
    (if finished t then (Inl kInvalidArg, t, e) else (Inr (), t, e))"

definition addReadConflictRange ::
  "'e kvstore_client \<Rightarrow> string \<Rightarrow> string \<Rightarrow> CustomTransaction \<Rightarrow> 'e
    \<Rightarrow> unit Result \<times> CustomTransaction \<times> 'e" where
  "addReadConflictRange cl begin_key end_key t e =
    (if finished t then (Inl kInvalidArg, t, e) else (Inr (), t, e))"

definition set_kv ::
  "'e kvstore_client \<Rightarrow> string \<Rightarrow> string \<Rightarrow> CustomTransaction \<Rightarrow> 'e
    \<Rightarrow> unit Result \<times> CustomTransaction \<times> 'e" where
  "set_kv cl k v t e =
    (if finished t then (Inl kInvalidArg, t, e)
     else
       (case ensureTransaction cl t e of
          (Inl err, t1, e1) \<Rightarrow> (Inl err, t1, e1)
        | (Inr u, t1, e1) \<Rightarrow>
            (case kv_transaction_set cl (transaction_handle_m t1) k v e1 of
               (result, e2) \<Rightarrow>
                 if \<not> success result then (Inl kIOError, t1, e2)
                 else (Inr (), t1, e2))))"

definition clear ::
  "'e kvstore_client \<Rightarrow> string \<Rightarrow> CustomTransaction \<Rightarrow> 'e
    \<Rightarrow> unit Result \<times> CustomTransaction \<times> 'e" where
  "clear cl k t e =
    (if finished t then (Inl kInvalidArg, t, e)
     else
       (case ensureTransaction cl t e of
          (Inl err, t1, e1) \<Rightarrow> (Inl err, t1, e1)
        | (Inr u, t1, e1) \<Rightarrow>
            (case kv_transaction_delete cl (transaction_handle_m t1) k e1 of
               (result, e2) \<Rightarrow>
                 if \<not> success result then (Inl kIOError, t1, e2)
                 else (Inr (), t1, e2))))"

text \<open>
  The \<^verbatim>\<open>offset\<close> argument of both versionstamped operations is not passed on. The value
  variant pads the prefix with ten NUL bytes
  (\<^verbatim>\<open>value_buffer.resize(value.size() + 10, '\0')\<close>).
\<close>

definition setVersionstampedKey ::
  "'e kvstore_client \<Rightarrow> string \<Rightarrow> nat \<Rightarrow> string \<Rightarrow> CustomTransaction \<Rightarrow> 'e
    \<Rightarrow> unit Result \<times> CustomTransaction \<times> 'e" where
  "setVersionstampedKey cl k offset v t e =
    (if finished t then (Inl kInvalidArg, t, e)
     else
       (case ensureTransaction cl t e of
          (Inl err, t1, e1) \<Rightarrow> (Inl err, t1, e1)
        | (Inr u, t1, e1) \<Rightarrow>
            if k = [] then (Inl kInvalidArg, t1, e1)
            else
              (case kv_transaction_set_versionstamped_key cl (transaction_handle_m t1) k v e1 of
                 (result, e2) \<Rightarrow>
                   if result \<noteq> KV_FUNCTION_SUCCESS then (Inl kIOError, t1, e2)
                   else (Inr (), t1, e2))))"

definition setVersionstampedValue ::
  "'e kvstore_client \<Rightarrow> string \<Rightarrow> string \<Rightarrow> nat \<Rightarrow> CustomTransaction \<Rightarrow> 'e
    \<Rightarrow> unit Result \<times> CustomTransaction \<times> 'e" where
  "setVersionstampedValue cl k v offset t e =
    (if finished t then (Inl kInvalidArg, t, e)
     else
       (case ensureTransaction cl t e of
          (Inl err, t1, e1) \<Rightarrow> (Inl err, t1, e1)
        | (Inr u, t1, e1) \<Rightarrow>
            if k = [] then (Inl kInvalidArg, t1, e1)
            else
              (case kv_transaction_set_versionstamped_value cl (transaction_handle_m t1) k
                      (v @ replicate 10 (CHR 0x00)) e1 of
                 (result, e2) \<Rightarrow>
                   if result \<noteq> KV_FUNCTION_SUCCESS then (Inl kIOError, t1, e2)
                   else (Inr (), t1, e2))))"

text \<open>
  \<^verbatim>\<open>commit\<close>: the flag \<^verbatim>\<open>committed_\<close> is set by the compare-and-exchange before the
  engine is called, and no path clears it. \<open>now\<close> is the reading of
  \<^verbatim>\<open>std::chrono::steady_clock\<close> in microseconds taken after the engine reported success.
\<close>

definition commit ::
  "'e kvstore_client \<Rightarrow> int \<Rightarrow> CustomTransaction \<Rightarrow> 'e
    \<Rightarrow> unit Result \<times> CustomTransaction \<times> 'e" where
  "commit cl now t e =
    (if cancelled_m t \<or> reset_m t then (Inl kInvalidArg, t, e)
     else if committed_m t then (Inr (), t, e)
     else
       (case ensureTransaction cl (t\<lparr>committed_m := True\<rparr>) e of
          (Inl err, t1, e1) \<Rightarrow> (Inl err, t1, e1)
        | (Inr u, t1, e1) \<Rightarrow>
            (case kv_transaction_commit cl (transaction_handle_m t1) e1 of
               (result, e2) \<Rightarrow>
                 if \<not> success result then
                   (Inl (case error_code result of
                           KV_ERROR_TRANSACTION_CONFLICT \<Rightarrow> kConflict
                         | KV_ERROR_TRANSACTION_TIMEOUT \<Rightarrow> kTimeout
                         | KV_ERROR_TRANSACTION_NOT_FOUND \<Rightarrow> kInvalidArg
                         | KV_ERROR_OTHER \<Rightarrow> kIOError),
                    t1, e2)
                 else (Inr (), t1\<lparr>committed_version_m := now\<rparr>, e2))))"

definition getCommittedVersion :: "CustomTransaction \<Rightarrow> int" where
  "getCommittedVersion t = committed_version_m t"

section \<open>The engine behind the client\<close>

text \<open>
  The Rust client and its server are not among the sources. The specification describes
  the engine the contract assumes: a sorted map under a global commit counter, snapshot
  reads at a read version, a read set checked at commit, and ten-byte versionstamps. The
  definitions of this section follow those words; the comments in
  \<^verbatim>\<open>CustomTransaction.cc\<close> fix where the versionstamp goes (after the key prefix; over
  the last ten bytes of the value buffer) and how the selectors of a range are encoded.
\<close>

text \<open>Modelled from the spec: the mutations a read-write transaction of the engine
  buffers until commit (\<^verbatim>\<open>set\<close>, \<^verbatim>\<open>clear\<close> and the two versionstamped writes); the
  engine's transaction objects are missing from the sources.\<close>

datatype mutation =
    MSet string string
  | MDelete string
  | MVersionstampedKey string string
  | MVersionstampedValue string string

text \<open>Modelled from the spec: the engine's state of one open read-write transaction,
  missing from the sources: its read version, the read-conflict points and ranges
  \<open>[begin, end)\<close> recorded by \<^verbatim>\<open>get\<close> and \<^verbatim>\<open>get_range\<close>, and its buffered
  mutations in the order of the calls.\<close>

record engine_txn =
  read_version :: nat
  read_keys :: "string list"
  read_ranges :: "(string \<times> string) list"
  mutations :: "mutation list"

text \<open>Modelled from the spec: the engine's store, missing from the sources: the global
  commit counter, the committed writes (commit version, key, value or \<open>None\<close> for a
  cleared key; newest first), the open read-write and read transactions by handle, and the
  next free handle.\<close>

record mem_engine =
  commit_counter :: nat
  history :: "(nat \<times> string \<times> string option) list"
  transactions :: "nat \<Rightarrow> engine_txn option"
  read_transactions :: "nat \<Rightarrow> nat option"
  next_handle :: nat

text \<open>Modelled from the spec: the value of a key in the snapshot at read version \<open>rv\<close>
  (the engine's snapshot read is missing from the sources): the newest committed write to
  the key at a version not above \<open>rv\<close>.\<close>

fun value_at :: "(nat \<times> string \<times> string option) list \<Rightarrow> nat \<Rightarrow> string \<Rightarrow> string option" where
  "value_at [] rv k = None"
| "value_at ((ver, k', v) # h) rv k = (if ver \<le> rv \<and> k' = k then v else value_at h rv k)"

text \<open>Modelled from the spec: whether the selectors of a range select a key (the engine's
  range scan is missing from the sources). Keys are ordered lexicographically by bytes. The
  caller passes \<^verbatim>\<open>begin_or_equal = 0\<close> for an inclusive begin and
  \<^verbatim>\<open>end_or_equal = 1\<close> for an inclusive end, both offsets 0.\<close>

definition selected :: "string \<Rightarrow> int \<Rightarrow> string \<Rightarrow> int \<Rightarrow> string \<Rightarrow> bool" where
  "selected begin_key begin_or_equal end_key end_or_equal k =
    ((begin_key < k \<or> (begin_or_equal = 0 \<and> k = begin_key)) \<and>
     (k < end_key \<or> (end_or_equal = 1 \<and> k = end_key)))"

text \<open>Modelled from the spec: all pairs of the snapshot at \<open>rv\<close> that the selectors
  select, in key order (the engine's range scan is missing from the sources).\<close>

definition range_at ::
  "(nat \<times> string \<times> string option) list \<Rightarrow> nat \<Rightarrow> string \<Rightarrow> int \<Rightarrow> string \<Rightarrow> int
    \<Rightarrow> (string \<times> string) list" where
  "range_at h rv begin_key begin_or_equal end_key end_or_equal =
    List.map_filter (\<lambda>k. map_option (Pair k) (value_at h rv k))
      (sort (filter (selected begin_key begin_or_equal end_key end_or_equal)
        (remdups (map (\<lambda>w. fst (snd w)) h))))"

text \<open>Modelled from the spec: the ten-byte versionstamp, the commit version in eight
  bytes big-endian followed by the sequence number within the transaction in two (the
  engine's encoder is missing from the sources).\<close>

fun be_bytes :: "nat \<Rightarrow> nat \<Rightarrow> string" where
  "be_bytes 0 x = []"
| "be_bytes (Suc n) x = be_bytes n (x div 256) @ [char_of (x mod 256)]"

definition versionstamp :: "nat \<Rightarrow> nat \<Rightarrow> string" where
  "versionstamp cv i = be_bytes 8 cv @ be_bytes 2 i"

text \<open>Modelled from the spec: the committed write of one mutation at commit version
  \<open>cv\<close>, the \<open>i\<close>-th of its transaction (the engine's commit is missing from the
  sources). The versionstamp follows the key prefix, and replaces the last ten bytes of the
  value buffer.\<close>

fun committed_write :: "nat \<Rightarrow> nat \<Rightarrow> mutation \<Rightarrow> nat \<times> string \<times> string option" where
  "committed_write cv i (MSet k v) = (cv, k, Some v)"
| "committed_write cv i (MDelete k) = (cv, k, None)"
| "committed_write cv i (MVersionstampedKey p v) = (cv, p @ versionstamp cv i, Some v)"
| "committed_write cv i (MVersionstampedValue k b) =
     (cv, k, Some (take (length b - 10) b @ versionstamp cv i))"

text \<open>Modelled from the spec: applying the buffered mutations of a transaction in
  order, numbering them from \<open>i\<close> (the engine's commit is missing from the sources).\<close>

fun apply_mutations ::
  "nat \<Rightarrow> nat \<Rightarrow> mutation list \<Rightarrow> (nat \<times> string \<times> string option) list
    \<Rightarrow> (nat \<times> string \<times> string option) list" where
  "apply_mutations cv i [] h = h"
| "apply_mutations cv i (m # ms) h = apply_mutations cv (Suc i) ms (committed_write cv i m # h)"

text \<open>Modelled from the spec: the conflict check of optimistic concurrency (the engine's
  commit is missing from the sources): some key of the read set (a point, or a key of a
  range \<open>[begin, end)\<close>) was written at a version above the transaction's read
  version.\<close>

definition conflicts :: "(nat \<times> string \<times> string option) list \<Rightarrow> engine_txn \<Rightarrow> bool" where
  "conflicts h x =
    list_ex (\<lambda>w. read_version x < fst w \<and>
                 (fst (snd w) \<in> set (read_keys x) \<or>
                  list_ex (\<lambda>r. fst r \<le> fst (snd w) \<and> fst (snd w) < snd r) (read_ranges x))) h"

text \<open>Modelled from the spec: the result of a call of the client that succeeded (errors are
  structured results; the client library is missing from the sources).\<close>

definition kv_ok :: KvResult where
  "kv_ok = \<lparr>success = True, error_code = KV_ERROR_OTHER\<rparr>"

text \<open>Modelled from the spec: the result of a call of the client that failed, with its error
  code (the client library is missing from the sources).\<close>

definition kv_failed :: "kv_error_code \<Rightarrow> KvResult" where
  "kv_failed c = \<lparr>success = False, error_code = c\<rparr>"

text \<open>Modelled from the spec: the client functions over the engine's store, missing from
  the sources. A read transaction reads the snapshot at the given version, bounded by the
  latest commit (version 0: the latest commit); a read-write transaction reads at the
  version current when it began. An unknown or null handle is reported as
  \<^verbatim>\<open>KV_ERROR_TRANSACTION_NOT_FOUND\<close>.\<close>

definition mem_read_transaction_begin :: "int \<Rightarrow> mem_engine \<Rightarrow> KvReadTransactionHandle \<times> mem_engine" where
  "mem_read_transaction_begin version e =
    (Some (next_handle e),
     e\<lparr>read_transactions :=
         (read_transactions e)(next_handle e \<mapsto>
            (if version \<le> 0 then commit_counter e else min (nat version) (commit_counter e))),
       next_handle := Suc (next_handle e)\<rparr>)"

text \<open>Modelled from the spec: the snapshot read of one key through a read transaction (the
  client's \<^verbatim>\<open>kv_read_transaction_get\<close> is missing from the sources); a key with no
  value in the snapshot is a success with no data.\<close>

definition mem_read_transaction_get ::
  "KvReadTransactionHandle \<Rightarrow> string \<Rightarrow> mem_engine \<Rightarrow> (KvResult \<times> KvBinaryData) \<times> mem_engine" where
  "mem_read_transaction_get h k e =
    (case h of
       None \<Rightarrow> ((kv_failed KV_ERROR_TRANSACTION_NOT_FOUND, None), e)
     | Some n \<Rightarrow>
         (case read_transactions e n of
            None \<Rightarrow> ((kv_failed KV_ERROR_TRANSACTION_NOT_FOUND, None), e)
          | Some rv \<Rightarrow> ((kv_ok, value_at (history e) rv k), e)))"

text \<open>Modelled from the spec: the range read through a read transaction (the client's
  \<^verbatim>\<open>kv_read_transaction_get_range\<close> is missing from the sources): at most
  \<open>limit\<close> pairs of the selected range, in key order.\<close>

definition mem_read_transaction_get_range ::
  "KvReadTransactionHandle \<Rightarrow> string \<Rightarrow> string \<Rightarrow> int \<Rightarrow> int \<Rightarrow> int \<Rightarrow> int \<Rightarrow> int \<Rightarrow> mem_engine
    \<Rightarrow> (KvResult \<times> KvPairArray) \<times> mem_engine" where
  "mem_read_transaction_get_range h begin_key end_key begin_offset begin_or_equal
      end_offset end_or_equal limit e =
    (case h of
       None \<Rightarrow> ((kv_failed KV_ERROR_TRANSACTION_NOT_FOUND, []), e)
     | Some n \<Rightarrow>
         (case read_transactions e n of
            None \<Rightarrow> ((kv_failed KV_ERROR_TRANSACTION_NOT_FOUND, []), e)
          | Some rv \<Rightarrow>
              ((kv_ok, take (nat limit)
                  (range_at (history e) rv begin_key begin_or_equal end_key end_or_equal)), e)))"

text \<open>Modelled from the spec: closing a read transaction (the client's
  \<^verbatim>\<open>kv_read_transaction_destroy\<close> is missing from the sources).\<close>

definition mem_read_transaction_destroy :: "KvReadTransactionHandle \<Rightarrow> mem_engine \<Rightarrow> mem_engine" where
  "mem_read_transaction_destroy h e =
    (case h of
       None \<Rightarrow> e
     | Some n \<Rightarrow> e\<lparr>read_transactions := (read_transactions e)(n := None)\<rparr>)"

text \<open>Modelled from the spec: beginning a read-write transaction at the version of the latest
  commit, with an empty read set and no mutations (the client's
  \<^verbatim>\<open>kv_transaction_begin\<close> is missing from the sources).\<close>

definition mem_transaction_begin :: "int \<Rightarrow> mem_engine \<Rightarrow> KvTransactionHandle \<times> mem_engine" where
  "mem_transaction_begin timeout_seconds e =
    (Some (next_handle e),
     e\<lparr>transactions :=
         (transactions e)(next_handle e \<mapsto>
            \<lparr>read_version = commit_counter e, read_keys = [], read_ranges = [],
             mutations = []\<rparr>),
       next_handle := Suc (next_handle e)\<rparr>)"

text \<open>Modelled from the spec: the open transaction behind a handle (the client's handle
  table is missing from the sources).\<close>

definition lookup_txn :: "mem_engine \<Rightarrow> KvTransactionHandle \<Rightarrow> (nat \<times> engine_txn) option" where
  "lookup_txn e h =
    (case h of
       None \<Rightarrow> None
     | Some n \<Rightarrow> (case transactions e n of None \<Rightarrow> None | Some x \<Rightarrow> Some (n, x)))"

text \<open>Modelled from the spec: the read of one key in a read-write transaction, which records
  a read-conflict point on the key (the client's \<^verbatim>\<open>kv_transaction_get\<close> is missing
  from the sources).\<close>

definition mem_transaction_get ::
  "KvTransactionHandle \<Rightarrow> string \<Rightarrow> mem_engine \<Rightarrow> (KvResult \<times> KvBinaryData) \<times> mem_engine" where
  "mem_transaction_get h k e =
    (case lookup_txn e h of
       None \<Rightarrow> ((kv_failed KV_ERROR_TRANSACTION_NOT_FOUND, None), e)
     | Some (n, x) \<Rightarrow>
         ((kv_ok, value_at (history e) (read_version x) k),
          e\<lparr>transactions := (transactions e)(n \<mapsto> x\<lparr>read_keys := k # read_keys x\<rparr>)\<rparr>))"

text \<open>Modelled from the spec: the range read in a read-write transaction, which records the
  read-conflict range from the begin key to the end key (the client's
  \<^verbatim>\<open>kv_transaction_get_range\<close> is missing from the sources).\<close>

definition mem_transaction_get_range ::
  "KvTransactionHandle \<Rightarrow> string \<Rightarrow> string \<Rightarrow> int \<Rightarrow> int \<Rightarrow> int \<Rightarrow> int \<Rightarrow> int \<Rightarrow> mem_engine
    \<Rightarrow> (KvResult \<times> KvPairArray) \<times> mem_engine" where
  "mem_transaction_get_range h begin_key end_key begin_offset begin_or_equal
      end_offset end_or_equal limit e =
    (case lookup_txn e h of
       None \<Rightarrow> ((kv_failed KV_ERROR_TRANSACTION_NOT_FOUND, []), e)
     | Some (n, x) \<Rightarrow>
         ((kv_ok, take (nat limit)
             (range_at (history e) (read_version x) begin_key begin_or_equal
                end_key end_or_equal)),
          e\<lparr>transactions :=
              (transactions e)(n \<mapsto> x\<lparr>read_ranges := (begin_key, end_key) # read_ranges x\<rparr>)\<rparr>))"

text \<open>Modelled from the spec: buffering one mutation in an open transaction (the
  client's write calls are missing from the sources).\<close>

definition buffer_mutation :: "KvTransactionHandle \<Rightarrow> mutation \<Rightarrow> mem_engine \<Rightarrow> mem_engine option" where
  "buffer_mutation h m e =
    (case lookup_txn e h of
       None \<Rightarrow> None
     | Some (n, x) \<Rightarrow>
         Some (e\<lparr>transactions := (transactions e)(n \<mapsto> x\<lparr>mutations := mutations x @ [m]\<rparr>)\<rparr>))"

text \<open>Modelled from the spec: \<^verbatim>\<open>set\<close> buffers a write of the key (the client's
  \<^verbatim>\<open>kv_transaction_set\<close> is missing from the sources).\<close>

definition mem_transaction_set ::
  "KvTransactionHandle \<Rightarrow> string \<Rightarrow> string \<Rightarrow> mem_engine \<Rightarrow> KvResult \<times> mem_engine" where
  "mem_transaction_set h k v e =
    (case buffer_mutation h (MSet k v) e of
       None \<Rightarrow> (kv_failed KV_ERROR_TRANSACTION_NOT_FOUND, e)
     | Some e1 \<Rightarrow> (kv_ok, e1))"

text \<open>Modelled from the spec: \<^verbatim>\<open>clear\<close> buffers the removal of the key (the client's
  \<^verbatim>\<open>kv_transaction_delete\<close> is missing from the sources).\<close>

definition mem_transaction_delete ::
  "KvTransactionHandle \<Rightarrow> string \<Rightarrow> mem_engine \<Rightarrow> KvResult \<times> mem_engine" where
  "mem_transaction_delete h k e =
    (case buffer_mutation h (MDelete k) e of
       None \<Rightarrow> (kv_failed KV_ERROR_TRANSACTION_NOT_FOUND, e)
     | Some e1 \<Rightarrow> (kv_ok, e1))"

text \<open>Modelled from the spec: the versionstamped key write is buffered with its key prefix
  (the client's \<^verbatim>\<open>kv_transaction_set_versionstamped_key\<close> is missing from the
  sources).\<close>

definition mem_transaction_set_versionstamped_key ::
  "KvTransactionHandle \<Rightarrow> string \<Rightarrow> string \<Rightarrow> mem_engine \<Rightarrow> kv_function_result \<times> mem_engine" where
  "mem_transaction_set_versionstamped_key h p v e =
    (case buffer_mutation h (MVersionstampedKey p v) e of
       None \<Rightarrow> (KV_FUNCTION_ERROR, e)
     | Some e1 \<Rightarrow> (KV_FUNCTION_SUCCESS, e1))"

text \<open>Modelled from the spec: the versionstamped value write is buffered with its value
  buffer, which must hold the ten bytes the versionstamp replaces (the client's
  \<^verbatim>\<open>kv_transaction_set_versionstamped_value\<close> is missing from the sources).\<close>

definition mem_transaction_set_versionstamped_value ::
  "KvTransactionHandle \<Rightarrow> string \<Rightarrow> string \<Rightarrow> mem_engine \<Rightarrow> kv_function_result \<times> mem_engine" where
  "mem_transaction_set_versionstamped_value h k b e =
    (if length b < 10 then (KV_FUNCTION_ERROR, e)
     else
       (case buffer_mutation h (MVersionstampedValue k b) e of
          None \<Rightarrow> (KV_FUNCTION_ERROR, e)
        | Some e1 \<Rightarrow> (KV_FUNCTION_SUCCESS, e1)))"

text \<open>Modelled from the spec: the engine's commit, missing from the sources. A
  transaction whose read set conflicts is dropped and nothing is written; otherwise the
  commit counter advances by one and the mutations are written at the new version.\<close>

definition mem_transaction_commit :: "KvTransactionHandle \<Rightarrow> mem_engine \<Rightarrow> KvResult \<times> mem_engine" where
  "mem_transaction_commit h e =
    (case lookup_txn e h of
       None \<Rightarrow> (kv_failed KV_ERROR_TRANSACTION_NOT_FOUND, e)
     | Some (n, x) \<Rightarrow>
         if conflicts (history e) x
         then (kv_failed KV_ERROR_TRANSACTION_CONFLICT,
               e\<lparr>transactions := (transactions e)(n := None)\<rparr>)
         else (kv_ok,
               e\<lparr>commit_counter := Suc (commit_counter e),
                 history := apply_mutations (Suc (commit_counter e)) 0 (mutations x) (history e),
                 transactions := (transactions e)(n := None)\<rparr>))"

text \<open>Modelled from the spec: aborting drops the transaction and writes nothing (the
  client's \<^verbatim>\<open>kv_transaction_abort\<close> is missing from the sources).\<close>

definition mem_transaction_abort :: "KvTransactionHandle \<Rightarrow> mem_engine \<Rightarrow> KvResult \<times> mem_engine" where
  "mem_transaction_abort h e =
    (case lookup_txn e h of
       None \<Rightarrow> (kv_failed KV_ERROR_TRANSACTION_NOT_FOUND, e)
     | Some (n, x) \<Rightarrow> (kv_ok, e\<lparr>transactions := (transactions e)(n := None)\<rparr>))"

text \<open>Modelled from the spec: releasing a pair array (the client's
  \<^verbatim>\<open>kv_pair_array_free\<close> is missing from the sources) leaves the count of the struct
  as the engine set it, the number of pairs of the page: the range reads, which compare the
  count with the limit after the call (\<^verbatim>\<open>if we got exactly the limit, assume more\<close>),
  presume so.\<close>

definition mem_pair_array_free :: "KvPairArray \<Rightarrow> nat" where
  "mem_pair_array_free pair_array = length pair_array"

text \<open>Modelled from the spec: the client library over the modelled engine (the Rust client
  is missing from the sources).\<close>

definition mem_client :: "mem_engine kvstore_client" where
  "mem_client =
    \<lparr>kv_read_transaction_begin = mem_read_transaction_begin,
     kv_read_transaction_get = mem_read_transaction_get,
     kv_read_transaction_get_range = mem_read_transaction_get_range,
     kv_read_transaction_destroy = mem_read_transaction_destroy,
     kv_transaction_begin = mem_transaction_begin,
     kv_transaction_get = mem_transaction_get,
     kv_transaction_get_range = mem_transaction_get_range,
     kv_transaction_set = mem_transaction_set,
     kv_transaction_delete = mem_transaction_delete,
     kv_transaction_set_versionstamped_key = mem_transaction_set_versionstamped_key,
     kv_transaction_set_versionstamped_value = mem_transaction_set_versionstamped_value,
     kv_transaction_commit = mem_transaction_commit,
     kv_transaction_abort = mem_transaction_abort,
     kv_pair_array_free = mem_pair_array_free\<rparr>"

text \<open>An engine with nothing committed and nothing open, and the two kinds of handle as
  \<^verbatim>\<open>createReadonlyTransaction\<close> and \<^verbatim>\<open>createReadWriteTransaction\<close> of
  \<^verbatim>\<open>CustomKvEngine.cc\<close> construct them on a healthy engine (the member initialisers of
  \<^verbatim>\<open>CustomTransaction.h\<close>; the client handle is non-null).\<close>

definition empty_engine :: mem_engine where
  "empty_engine =
    \<lparr>commit_counter = 0, history = [], transactions = (\<lambda>n. None),
     read_transactions = (\<lambda>n. None), next_handle = 0\<rparr>"

definition createReadonlyTransaction :: CustomReadOnlyTransaction where
  "createReadonlyTransaction =
    \<lparr>ro_read_version_m = None, ro_cancelled_m = False, ro_reset_m = False,
     ro_client_handle_m = True\<rparr>"

definition createReadWriteTransaction :: CustomTransaction where
  "createReadWriteTransaction =
    \<lparr>read_version_m = None, cancelled_m = False, reset_m = False, committed_m = False,
     committed_version_m = - 1, client_handle_m = True, transaction_handle_m = None\<rparr>"

section \<open>Callers and scenarios\<close>

text \<open>Modelled from the spec: the error kinds of the transaction contract and whether a
  caller's retry loop retries them (the retry strategy is missing from the sources):
  Conflict and Throttled are retried unconditionally, MaybeCommitted only when the caller
  states that the operation is idempotent; TooOld, Timeout and NetworkError are retried
  within bounds; Invalid and Fatal are not.\<close>

datatype error_kind =
  Conflict | MaybeCommitted | TooOld | Throttled | Timeout | NetworkError | Invalid | Fatal

fun retriable :: "bool \<Rightarrow> error_kind \<Rightarrow> bool" where
  "retriable idempotent Conflict = True"
| "retriable idempotent Throttled = True"
| "retriable idempotent MaybeCommitted = idempotent"
| "retriable idempotent TooOld = True"
| "retriable idempotent Timeout = True"
| "retriable idempotent NetworkError = True"
| "retriable idempotent Invalid = False"
| "retriable idempotent Fatal = False"

text \<open>Modelled from the spec: the error kind a status code of \<^verbatim>\<open>commit\<close> stands
  for (the classification of status codes is missing from the sources);
  \<^verbatim>\<open>kIOError\<close> names no kind of the contract.\<close>

fun error_kind_of :: "status_code_t \<Rightarrow> error_kind option" where
  "error_kind_of kConflict = Some Conflict"
| "error_kind_of kTimeout = Some Timeout"
| "error_kind_of kInvalidArg = Some Invalid"
| "error_kind_of kIOError = None"

text \<open>
  A client whose reads fail in transport: \<^verbatim>\<open>kv_transaction_get\<close> and
  \<^verbatim>\<open>kv_read_transaction_get\<close> complete with \<^verbatim>\<open>success = false\<close> and no data.
\<close>

definition transport_failure :: "'e kvstore_client \<Rightarrow> 'e kvstore_client" where
  "transport_failure cl =
    cl\<lparr>kv_read_transaction_get := (\<lambda>h k e. ((kv_failed KV_ERROR_OTHER, None), e)),
       kv_transaction_get := (\<lambda>h k e. ((kv_failed KV_ERROR_OTHER, None), e))\<rparr>"

text \<open>Another transaction: a fresh read-write handle sets one key and commits.\<close>

definition committed_set :: "string \<Rightarrow> string \<Rightarrow> mem_engine \<Rightarrow> unit Result \<times> mem_engine" where
  "committed_set k v e =
    (case set_kv mem_client k v createReadWriteTransaction e of
       (r, t1, e1) \<Rightarrow> (case commit mem_client 0 t1 e1 of (r', t2, e2) \<Rightarrow> (r', e2)))"

text \<open>
  A read-write transaction reads \<open>''a''\<close> (which begins its engine transaction), declares
  a read conflict on the key \<open>''k''\<close> and on the range from \<open>''j''\<close> to \<open>''l''\<close>; another
  transaction then commits a write to \<open>''k''\<close>; the first transaction writes \<open>''z''\<close> and
  commits. The results of the two declarations, of the other commit, of the write and of
  the final commit.
\<close>

definition declared_conflict_scenario ::
  "unit Result \<times> unit Result \<times> unit Result \<times> unit Result \<times> unit Result" where
  "declared_conflict_scenario =
    (case get mem_client ''a'' createReadWriteTransaction empty_engine of
       (r0, t0, e0) \<Rightarrow>
    (case addReadConflict mem_client ''k'' t0 e0 of
       (r1, t1, e1) \<Rightarrow>
    (case addReadConflictRange mem_client ''j'' ''l'' t1 e1 of
       (r2, t2, e2) \<Rightarrow>
    (case committed_set ''k'' ''v'' e2 of
       (r3, e3) \<Rightarrow>
    (case set_kv mem_client ''z'' ''1'' t2 e3 of
       (r4, t4, e4) \<Rightarrow> (r1, r2, r3, r4, fst (commit mem_client 0 t4 e4)))))))"

text \<open>
  The same with \<^verbatim>\<open>get\<close> on \<open>''k''\<close> in place of the declarations: the handle and
  the engine before the final commit, and the results of the other commit, of the write and
  of the final commit.
\<close>

definition conflicting_handle :: "(unit Result \<times> unit Result) \<times> CustomTransaction \<times> mem_engine" where
  "conflicting_handle =
    (case get mem_client ''k'' createReadWriteTransaction empty_engine of
       (r0, t0, e0) \<Rightarrow>
    (case committed_set ''k'' ''v'' e0 of
       (r3, e3) \<Rightarrow>
    (case set_kv mem_client ''z'' ''1'' t0 e3 of
       (r4, t4, e4) \<Rightarrow> ((r3, r4), t4, e4))))"

definition read_conflict_scenario :: "unit Result \<times> unit Result \<times> unit Result" where
  "read_conflict_scenario =
    (fst (fst conflicting_handle), snd (fst conflicting_handle),
     fst (commit mem_client 0 (fst (snd conflicting_handle)) (snd (snd conflicting_handle))))"

text \<open>
  One read-only handle, no read version set: \<open>''k''\<close> holds \<open>''v1''\<close>, the handle reads
  it with \<^verbatim>\<open>snapshotGet\<close>, another transaction commits \<open>''v2''\<close>, and the same handle
  reads again.
\<close>

definition snapshot_scenario_first ::
  "(string option) Result \<times> CustomReadOnlyTransaction \<times> mem_engine" where
  "snapshot_scenario_first =
    ro_snapshotGet mem_client ''k'' createReadonlyTransaction
      (snd (committed_set ''k'' ''v1'' empty_engine))"

definition snapshot_scenario_second ::
  "(string option) Result \<times> CustomReadOnlyTransaction \<times> mem_engine" where
  "snapshot_scenario_second =
    ro_snapshotGet mem_client ''k'' (fst (snd snapshot_scenario_first))
      (snd (committed_set ''k'' ''v2'' (snd (snd snapshot_scenario_first))))"







text \<open>An engine whose store holds the single key \<open>''k''\<close>.\<close>

definition one_key_engine :: mem_engine where
  "one_key_engine = snd (committed_set ''k'' ''v1'' empty_engine)"

text \<open>
  A page of one pair is asked of that engine, from \<open>''a''\<close> inclusive to \<open>''z''\<close>
  exclusive, through a read-write handle and through a read-only handle.
\<close>

definition range_scenario :: "GetRangeResult Result \<times> CustomTransaction \<times> mem_engine" where
  "range_scenario =
    getRange mem_client \<lparr>key = ''a'', inclusive = True\<rparr> \<lparr>key = ''z'', inclusive = False\<rparr> 1
      createReadWriteTransaction one_key_engine"

definition ro_range_scenario ::
  "GetRangeResult Result \<times> CustomReadOnlyTransaction \<times> mem_engine" where
  "ro_range_scenario =
    ro_snapshotGetRange mem_client \<lparr>key = ''a'', inclusive = True\<rparr>
      \<lparr>key = ''z'', inclusive = False\<rparr> 1 createReadonlyTransaction one_key_engine"

text \<open>
  The same client with another \<^verbatim>\<open>kv_pair_array_free\<close>: \<open>f\<close> gives the count that
  the call leaves in the struct. With \<open>\<lambda>p. 0\<close> the free clears the count.
\<close>

definition with_free :: "(KvPairArray \<Rightarrow> nat) \<Rightarrow> 'e kvstore_client \<Rightarrow> 'e kvstore_client" where
  "with_free f cl = cl\<lparr>kv_pair_array_free := f\<rparr>"

text \<open>
  An engine whose store holds the keys \<open>''k''\<close> and \<open>''m''\<close>, and the same page of one
  pair asked of it through a client whose free clears the count.
\<close>

definition two_key_engine :: mem_engine where
  "two_key_engine = snd (committed_set ''m'' ''v2'' one_key_engine)"

definition cleared_range_scenario ::
  "GetRangeResult Result \<times> CustomTransaction \<times> mem_engine" where
  "cleared_range_scenario =
    getRange (with_free (\<lambda>p. 0) mem_client) \<lparr>key = ''a'', inclusive = True\<rparr>
      \<lparr>key = ''z'', inclusive = False\<rparr> 1 createReadWriteTransaction two_key_engine"

text \<open>
  The test \<^verbatim>\<open>BinaryDataWithNullBytes\<close>: a key and a value with embedded NUL bytes are
  set and committed.
\<close>

definition binary_write :: "unit Result \<times> CustomTransaction \<times> mem_engine" where
  "binary_write =
    set_kv mem_client [CHR ''a'', CHR 0x00, CHR ''b''] [CHR 0x00, CHR 0xFF, CHR 0x00]
      createReadWriteTransaction empty_engine"

definition binary_commit :: "unit Result \<times> CustomTransaction \<times> mem_engine" where
  "binary_commit = commit mem_client 0 (fst (snd binary_write)) (snd (snd binary_write))"

text \<open>
  What a successful write call of a handle leaves in the engine: the handle's engine
  transaction is open and the mutation is the last it buffers.
\<close>

definition buffered_last :: "mutation \<Rightarrow> CustomTransaction \<Rightarrow> mem_engine \<Rightarrow> bool" where
  "buffered_last m t1 e1 =
    (\<exists>n x ms. transaction_handle_m t1 = Some n \<and> transactions e1 n = Some x \<and>
       mutations x = ms @ [m])"

















text \<open>
  What the modelled engine's page is: the first \<open>limit\<close> pairs, in key order, of the
  pairs that the selectors select in some snapshot of the store.
\<close>

definition page_of_range ::
  "mem_engine \<Rightarrow> KeySelector \<Rightarrow> KeySelector \<Rightarrow> int \<Rightarrow> (string \<times> string) list \<Rightarrow> bool" where
  "page_of_range e b en limit page =
    ((\<exists>rv. page = take (nat limit)
        (range_at (history e) rv (key b) (if inclusive b then 0 else 1)
           (key en) (if inclusive en then 1 else 0))) \<and>
     sorted (map fst page) \<and> distinct (map fst page) \<and> int (length page) \<le> max 0 limit)"

section \<open>Properties of the transaction handles, for any client\<close>

lemmas txn_defs = ensureTransaction_def finished_def snapshotGet_def get_def getRange_def
  snapshotGetRange_def cancel_def reset_def addReadConflict_def addReadConflictRange_def
  set_kv_def clear_def setVersionstampedKey_def setVersionstampedValue_def commit_def
  getCommittedVersion_def ro_snapshotGet_def ro_get_def ro_snapshotGetRange_def ro_getRange_def
  ro_cancel_def ro_reset_def

lemmas mem_defs = mem_client_def mem_read_transaction_begin_def mem_read_transaction_get_def
  mem_read_transaction_get_range_def mem_read_transaction_destroy_def mem_transaction_begin_def
  lookup_txn_def mem_transaction_get_def mem_transaction_get_range_def buffer_mutation_def
  mem_transaction_set_def mem_transaction_delete_def mem_transaction_set_versionstamped_key_def
  mem_transaction_set_versionstamped_value_def mem_transaction_commit_def
  mem_transaction_abort_def mem_pair_array_free_def conflicts_def kv_ok_def kv_failed_def
  empty_engine_def
  createReadWriteTransaction_def createReadonlyTransaction_def

lemma ensureTransaction_flags:
  "ensureTransaction cl t e = (r, t1, e1) \<Longrightarrow>
     cancelled_m t1 = cancelled_m t \<and> reset_m t1 = reset_m t \<and>
     committed_m t1 = committed_m t \<and> committed_version_m t1 = committed_version_m t \<and>
     read_version_m t1 = read_version_m t \<and> client_handle_m t1 = client_handle_m t"
  by (auto simp: ensureTransaction_def split: if_splits prod.splits option.splits)

lemma commit_of_committed:
  "committed_m t \<Longrightarrow> \<not> cancelled_m t \<Longrightarrow> \<not> reset_m t \<Longrightarrow> commit cl now t e = (Inr (), t, e)"
  by (simp add: commit_def)

lemma commit_marks_committed:
  assumes "\<not> cancelled_m t" "\<not> reset_m t"
  shows "committed_m (fst (snd (commit cl now t e))) \<and>
         \<not> cancelled_m (fst (snd (commit cl now t e))) \<and>
         \<not> reset_m (fst (snd (commit cl now t e)))"
proof (cases "committed_m t")
  case True
  with assms show ?thesis by (simp add: commit_def)
next
  case False
  obtain r t1 e1 where et: "ensureTransaction cl (t\<lparr>committed_m := True\<rparr>) e = (r, t1, e1)"
    by (cases "ensureTransaction cl (t\<lparr>committed_m := True\<rparr>) e") auto
  from ensureTransaction_flags[OF et] have fl:
    "cancelled_m t1 = cancelled_m t" "reset_m t1 = reset_m t" "committed_m t1" by simp_all
  show ?thesis using assms False et fl
    by (cases r) (simp_all add: commit_def split: prod.splits)
qed

lemma finished_rejects:
  assumes "finished t"
  shows "snapshotGet cl k t e = (Inl kInvalidArg, t, e) \<and>
     get cl k t e = (Inl kInvalidArg, t, e) \<and>
     getRange cl b en l t e = (Inl kInvalidArg, t, e) \<and>
     snapshotGetRange cl b en l t e = (Inl kInvalidArg, t, e) \<and>
     set_kv cl k v t e = (Inl kInvalidArg, t, e) \<and>
     clear cl k t e = (Inl kInvalidArg, t, e) \<and>
     setVersionstampedKey cl k off v t e = (Inl kInvalidArg, t, e) \<and>
     setVersionstampedValue cl k v off t e = (Inl kInvalidArg, t, e) \<and>
     addReadConflict cl k t e = (Inl kInvalidArg, t, e) \<and>
     addReadConflictRange cl k k2 t e = (Inl kInvalidArg, t, e)"
  using assms
  by (simp add: snapshotGet_def get_def getRange_def snapshotGetRange_def set_kv_def clear_def
      setVersionstampedKey_def setVersionstampedValue_def addReadConflict_def
      addReadConflictRange_def)

lemma ro_finished_rejects:
  assumes "ro_cancelled_m r \<or> ro_reset_m r"
  shows "ro_snapshotGet cl k r e = (Inl kInvalidArg, r, e) \<and>
     ro_get cl k r e = (Inl kInvalidArg, r, e) \<and>
     ro_snapshotGetRange cl b en l r e = (Inl kInvalidArg, r, e) \<and>
     ro_getRange cl b en l r e = (Inl kInvalidArg, r, e)"
  using assms
  by (auto simp: ro_snapshotGet_def ro_get_def ro_snapshotGetRange_def ro_getRange_def)

lemma finished_after_cancel: "finished (fst (snd (cancel cl t e)))"
  by (simp add: cancel_def finished_def split: option.splits prod.splits)

lemma finished_after_reset: "finished (reset t)"
  by (simp add: reset_def finished_def)

lemma finished_after_commit:
  "fst (commit cl now t e) = Inr () \<Longrightarrow> finished (fst (snd (commit cl now t e)))"
  using commit_marks_committed[of t cl now e]
  by (cases "cancelled_m t \<or> reset_m t") (auto simp: finished_def commit_def)

lemma finished_absorbing:
  "finished t \<Longrightarrow>
     finished (fst (snd (commit cl now t e))) \<and> finished (setReadVersion v t) \<and>
     finished (fst (snd (cancel cl t e))) \<and> finished (reset t)"
  using finished_after_cancel[of cl t e] finished_after_reset[of t]
  by (auto simp: finished_def commit_def setReadVersion_def)

lemma ro_finished_absorbing:
  "ro_cancelled_m r \<or> ro_reset_m r \<Longrightarrow>
     (ro_cancelled_m (ro_setReadVersion v r) \<or> ro_reset_m (ro_setReadVersion v r)) \<and>
     (ro_cancelled_m (fst (snd (ro_cancel cl r e))) \<or> ro_reset_m (fst (snd (ro_cancel cl r e)))) \<and>
     (ro_cancelled_m (ro_reset r) \<or> ro_reset_m (ro_reset r))"
  by (auto simp: ro_setReadVersion_def ro_cancel_def ro_reset_def)

text \<open>
  C9. Once a read-write handle is finished (cancelled, reset or committed: the states that
  \<^verbatim>\<open>cancel\<close>, \<^verbatim>\<open>reset\<close> and a \<^verbatim>\<open>commit\<close> that returned success leave behind,
  and that no later call on the handle leaves again), each of \<^verbatim>\<open>snapshotGet\<close>,
  \<^verbatim>\<open>get\<close>, \<^verbatim>\<open>getRange\<close>, \<^verbatim>\<open>snapshotGetRange\<close>, \<^verbatim>\<open>set\<close>, \<^verbatim>\<open>clear\<close>,
  \<^verbatim>\<open>setVersionstampedKey\<close>, \<^verbatim>\<open>setVersionstampedValue\<close>, \<^verbatim>\<open>addReadConflict\<close>
  and \<^verbatim>\<open>addReadConflictRange\<close> returns \<^verbatim>\<open>kInvalidArg\<close> and leaves the handle and
  the engine as they were, whatever the client; the same holds for the four read
  operations of a read-only handle that was cancelled or reset.
\<close>

theorem finished_handle_rejects_operations:
  "(finished t \<longrightarrow>
      snapshotGet cl k t e = (Inl kInvalidArg, t, e) \<and>
      get cl k t e = (Inl kInvalidArg, t, e) \<and>
      getRange cl b en l t e = (Inl kInvalidArg, t, e) \<and>
      snapshotGetRange cl b en l t e = (Inl kInvalidArg, t, e) \<and>
      set_kv cl k v t e = (Inl kInvalidArg, t, e) \<and>
      clear cl k t e = (Inl kInvalidArg, t, e) \<and>
      setVersionstampedKey cl k off v t e = (Inl kInvalidArg, t, e) \<and>
      setVersionstampedValue cl k v off t e = (Inl kInvalidArg, t, e) \<and>
      addReadConflict cl k t e = (Inl kInvalidArg, t, e) \<and>
      addReadConflictRange cl k k2 t e = (Inl kInvalidArg, t, e)) \<and>
   (ro_cancelled_m r \<or> ro_reset_m r \<longrightarrow>
      ro_snapshotGet cl k r e = (Inl kInvalidArg, r, e) \<and>
      ro_get cl k r e = (Inl kInvalidArg, r, e) \<and>
      ro_snapshotGetRange cl b en l r e = (Inl kInvalidArg, r, e) \<and>
      ro_getRange cl b en l r e = (Inl kInvalidArg, r, e)) \<and>
   finished (fst (snd (cancel cl t0 e0))) \<and>
   finished (reset t0) \<and>
   (fst (commit cl now t0 e0) = Inr () \<longrightarrow> finished (fst (snd (commit cl now t0 e0)))) \<and>
   ro_cancelled_m (fst (snd (ro_cancel cl r0 e0))) \<and>
   ro_reset_m (ro_reset r0) \<and>
   (finished t \<longrightarrow>
      finished (fst (snd (commit cl now t e))) \<and> finished (setReadVersion rv t) \<and>
      finished (fst (snd (cancel cl t e))) \<and> finished (reset t)) \<and>
   (ro_cancelled_m r \<or> ro_reset_m r \<longrightarrow>
      (ro_cancelled_m (ro_setReadVersion rv r) \<or> ro_reset_m (ro_setReadVersion rv r)) \<and>
      (ro_cancelled_m (fst (snd (ro_cancel cl r e))) \<or>
       ro_reset_m (fst (snd (ro_cancel cl r e)))) \<and>
      (ro_cancelled_m (ro_reset r) \<or> ro_reset_m (ro_reset r)))"
proof (intro conjI)
  show "finished t \<longrightarrow>
      snapshotGet cl k t e = (Inl kInvalidArg, t, e) \<and>
      get cl k t e = (Inl kInvalidArg, t, e) \<and>
      getRange cl b en l t e = (Inl kInvalidArg, t, e) \<and>
      snapshotGetRange cl b en l t e = (Inl kInvalidArg, t, e) \<and>
      set_kv cl k v t e = (Inl kInvalidArg, t, e) \<and>
      clear cl k t e = (Inl kInvalidArg, t, e) \<and>
      setVersionstampedKey cl k off v t e = (Inl kInvalidArg, t, e) \<and>
      setVersionstampedValue cl k v off t e = (Inl kInvalidArg, t, e) \<and>
      addReadConflict cl k t e = (Inl kInvalidArg, t, e) \<and>
      addReadConflictRange cl k k2 t e = (Inl kInvalidArg, t, e)"
    by (rule impI) (rule finished_rejects)
  show "ro_cancelled_m r \<or> ro_reset_m r \<longrightarrow>
      ro_snapshotGet cl k r e = (Inl kInvalidArg, r, e) \<and>
      ro_get cl k r e = (Inl kInvalidArg, r, e) \<and>
      ro_snapshotGetRange cl b en l r e = (Inl kInvalidArg, r, e) \<and>
      ro_getRange cl b en l r e = (Inl kInvalidArg, r, e)"
    by (rule impI) (rule ro_finished_rejects)
  show "finished (fst (snd (cancel cl t0 e0)))"
    by (rule finished_after_cancel)
  show "finished (reset t0)"
    by (rule finished_after_reset)
  show "fst (commit cl now t0 e0) = Inr () \<longrightarrow> finished (fst (snd (commit cl now t0 e0)))"
    by (rule impI) (rule finished_after_commit)
  show "ro_cancelled_m (fst (snd (ro_cancel cl r0 e0)))"
    by (simp add: ro_cancel_def)
  show "ro_reset_m (ro_reset r0)"
    by (simp add: ro_reset_def)
  show "finished t \<longrightarrow>
      finished (fst (snd (commit cl now t e))) \<and> finished (setReadVersion rv t) \<and>
      finished (fst (snd (cancel cl t e))) \<and> finished (reset t)"
    by (rule impI) (rule finished_absorbing)
  show "ro_cancelled_m r \<or> ro_reset_m r \<longrightarrow>
      (ro_cancelled_m (ro_setReadVersion rv r) \<or> ro_reset_m (ro_setReadVersion rv r)) \<and>
      (ro_cancelled_m (fst (snd (ro_cancel cl r e))) \<or>
       ro_reset_m (fst (snd (ro_cancel cl r e)))) \<and>
      (ro_cancelled_m (ro_reset r) \<or> ro_reset_m (ro_reset r))"
    by (rule impI) (rule ro_finished_absorbing)
qed

theorem finished_handle_rejects_operations_witness:
  "finished (reset createReadWriteTransaction) \<and>
   set_kv mem_client ''k'' ''v'' (reset createReadWriteTransaction) empty_engine =
     (Inl kInvalidArg, reset createReadWriteTransaction, empty_engine) \<and>
   get mem_client ''k'' (reset createReadWriteTransaction) empty_engine =
     (Inl kInvalidArg, reset createReadWriteTransaction, empty_engine) \<and>
   ro_reset_m (ro_reset createReadonlyTransaction) \<and>
   ro_snapshotGet mem_client ''k'' (ro_reset createReadonlyTransaction) empty_engine =
     (Inl kInvalidArg, ro_reset createReadonlyTransaction, empty_engine) \<and>
   fst (commit mem_client 7 createReadWriteTransaction empty_engine) = Inr () \<and>
   finished (fst (snd (commit mem_client 7 createReadWriteTransaction empty_engine)))"
proof -
  have c: "fst (commit mem_client 7 createReadWriteTransaction empty_engine) = Inr ()"
    by code_simp
  note th = finished_handle_rejects_operations
      [where t = "reset createReadWriteTransaction" and cl = mem_client and k = "''k''"
         and v = "''v''" and e = empty_engine and r = "ro_reset createReadonlyTransaction"
         and ?t0.0 = createReadWriteTransaction and ?r0.0 = createReadonlyTransaction
         and ?e0.0 = empty_engine and now = 7]
  have f: "finished (reset createReadWriteTransaction)"
    by (rule th[THEN conjunct2, THEN conjunct2, THEN conjunct2, THEN conjunct1])
  have rr: "ro_reset_m (ro_reset createReadonlyTransaction)"
    by (simp add: ro_reset_def)
  note rw = th[THEN conjunct1, rule_format, OF f]
  note ro = th[THEN conjunct2, THEN conjunct1, rule_format, OF disjI2[OF rr]]
  note fc = th[THEN conjunct2, THEN conjunct2, THEN conjunct2, THEN conjunct2, THEN conjunct1,
      rule_format, OF c]
  show ?thesis
    using f rr c fc rw ro by simp
qed

text \<open>
  C10. On a handle that is neither cancelled nor reset, a call of \<^verbatim>\<open>commit\<close> leaves the
  flag \<^verbatim>\<open>committed_\<close> set, and a second call returns success at once: it changes
  neither the handle nor the engine, whatever the engine's state is by then and whatever
  the first call returned.
\<close>

theorem commit_twice:
  assumes "\<not> cancelled_m t" and "\<not> reset_m t"
  shows "committed_m (fst (snd (commit cl now t e))) \<and>
         commit cl now' (fst (snd (commit cl now t e))) e' =
           (Inr (), fst (snd (commit cl now t e)), e')"
  using commit_marks_committed[OF assms, of cl now e] by (simp add: commit_of_committed)

theorem commit_twice_witness:
  "\<not> cancelled_m createReadWriteTransaction \<and> \<not> reset_m createReadWriteTransaction \<and>
   fst (commit mem_client 7 createReadWriteTransaction empty_engine) = Inr () \<and>
   commit mem_client 8 (fst (snd (commit mem_client 7 createReadWriteTransaction empty_engine)))
       (snd (snd (commit mem_client 7 createReadWriteTransaction empty_engine))) =
     (Inr (), fst (snd (commit mem_client 7 createReadWriteTransaction empty_engine)),
      snd (snd (commit mem_client 7 createReadWriteTransaction empty_engine)))"
proof -
  have a: "\<not> cancelled_m createReadWriteTransaction" "\<not> reset_m createReadWriteTransaction"
    by (simp_all add: createReadWriteTransaction_def)
  have c: "fst (commit mem_client 7 createReadWriteTransaction empty_engine) = Inr ()"
    by (simp add: commit_def ensureTransaction_def createReadWriteTransaction_def
        empty_engine_def mem_client_def mem_transaction_begin_def mem_transaction_commit_def
        lookup_txn_def conflicts_def kv_ok_def)
  show ?thesis
    using a c commit_twice[OF a, of mem_client 7 empty_engine 8
        "snd (snd (commit mem_client 7 createReadWriteTransaction empty_engine))"]
    by simp
qed

section \<open>Properties of the engine\<close>

lemma triple_eq: "fst p = a \<Longrightarrow> p = (a, fst (snd p), snd (snd p))"
  by (cases p) auto

lemma apply_mutations_append:
  "apply_mutations cv i (ms @ [m]) h =
     committed_write cv (i + length ms) m # apply_mutations cv i ms h"
  by (induction ms arbitrary: i h) simp_all






lemma length_be_bytes: "length (be_bytes n x) = n"
  by (induction n arbitrary: x) simp_all

lemma length_versionstamp: "length (versionstamp cv i) = 10"
  by (simp add: versionstamp_def length_be_bytes)

lemma mem_ensureTransaction:
  "ensureTransaction mem_client t e = (r, t1, e1) \<Longrightarrow>
     history e1 = history e \<and> commit_counter e1 = commit_counter e \<and>
     read_transactions e1 = read_transactions e"
  by (auto simp: ensureTransaction_def mem_client_def mem_transaction_begin_def
      split: if_splits)

lemma mem_ensureTransaction_fresh:
  "transaction_handle_m t = None \<Longrightarrow> client_handle_m t \<Longrightarrow>
     ensureTransaction mem_client t e =
       (Inr (), t\<lparr>transaction_handle_m := Some (next_handle e)\<rparr>,
        e\<lparr>transactions :=
            (transactions e)(next_handle e \<mapsto>
               \<lparr>read_version = commit_counter e, read_keys = [], read_ranges = [],
                mutations = []\<rparr>),
          next_handle := Suc (next_handle e)\<rparr>)"
  by (simp add: ensureTransaction_def mem_client_def mem_transaction_begin_def)

lemma buffer_mutation_Some:
  "buffer_mutation h m e = Some e1 \<Longrightarrow>
     \<exists>n x. h = Some n \<and> transactions e n = Some x \<and>
       transactions e1 n = Some (x\<lparr>mutations := mutations x @ [m]\<rparr>) \<and>
       history e1 = history e \<and> commit_counter e1 = commit_counter e"
  by (auto simp: buffer_mutation_def lookup_txn_def split: option.splits)

lemma buffered_lastI:
  assumes nf: "\<not> finished t"
    and et: "ensureTransaction mem_client t e = (Inr (), t1, e0)"
    and bm: "buffer_mutation (transaction_handle_m t1) m e0 = Some e1"
  shows "\<not> finished t1 \<and> history e1 = history e \<and> commit_counter e1 = commit_counter e \<and>
         buffered_last m t1 e1"
  using buffer_mutation_Some[OF bm] mem_ensureTransaction[OF et] ensureTransaction_flags[OF et] nf
  by (auto simp: finished_def buffered_last_def)

lemma set_kv_buffers:
  assumes "set_kv mem_client k v t e = (Inr (), t1, e1)"
  shows "\<not> finished t1 \<and> history e1 = history e \<and> commit_counter e1 = commit_counter e \<and>
         buffered_last (MSet k v) t1 e1"
proof -
  from assms have nf: "\<not> finished t" by (auto simp: set_kv_def split: if_splits)
  obtain r t0 e0 where et: "ensureTransaction mem_client t e = (r, t0, e0)"
    by (cases "ensureTransaction mem_client t e") auto
  from assms nf et have r: "r = Inr ()" and t0: "t0 = t1"
    by (auto simp: set_kv_def split: sum.splits prod.splits if_splits)
  from assms nf et r obtain res where
    "mem_transaction_set (transaction_handle_m t0) k v e0 = (res, e1)" and "success res"
    by (auto simp: set_kv_def mem_client_def split: sum.splits prod.splits if_splits)
  then have "buffer_mutation (transaction_handle_m t0) (MSet k v) e0 = Some e1"
    by (auto simp: mem_transaction_set_def kv_failed_def split: option.splits)
  with buffered_lastI[OF nf] et r t0 show ?thesis by simp
qed

lemma mem_commit_writes:
  assumes nf: "\<not> finished t1" and h: "transaction_handle_m t1 = Some n"
    and x: "transactions e1 n = Some x"
    and c: "commit mem_client now t1 e1 = (Inr (), t2, e2)"
  shows "commit_counter e2 = Suc (commit_counter e1) \<and>
         history e2 = apply_mutations (Suc (commit_counter e1)) 0 (mutations x) (history e1) \<and>
         \<not> conflicts (history e1) x \<and> committed_version_m t2 = now"
  using assms
  by (auto simp: commit_def finished_def ensureTransaction_def mem_client_def
      mem_transaction_commit_def lookup_txn_def kv_failed_def kv_ok_def split: if_splits)

lemma commit_writes_last:
  assumes nf: "\<not> finished t1" and b: "buffered_last m t1 e1"
    and c: "commit mem_client now t1 e1 = (Inr (), t2, e2)"
  shows "\<exists>i rest. history e2 = committed_write (commit_counter e2) i m # rest"
proof -
  from b obtain n x ms where h: "transaction_handle_m t1 = Some n"
    and x: "transactions e1 n = Some x" and m: "mutations x = ms @ [m]"
    by (auto simp: buffered_last_def)
  from mem_commit_writes[OF nf h x c] m
  have "history e2 = committed_write (commit_counter e2) (length ms) m #
          apply_mutations (commit_counter e2) 0 ms (history e1)"
    by (simp add: apply_mutations_append)
  then show ?thesis by blast
qed

lemma mem_get_fresh:
  assumes "\<not> finished t" "client_handle_m t" "transaction_handle_m t = None"
  shows "fst (get mem_client k t e) = Inr (value_at (history e) (commit_counter e) k)"
  using assms
  by (simp add: get_def mem_ensureTransaction_fresh)
     (simp add: mem_client_def mem_transaction_get_def lookup_txn_def kv_ok_def
        split: option.splits)

lemma mem_snapshotGet_latest:
  assumes "\<not> finished t" "client_handle_m t" "read_version_m t = None"
  shows "fst (snapshotGet mem_client k t e) = Inr (value_at (history e) (commit_counter e) k)"
  using assms
  by (simp add: snapshotGet_def mem_client_def mem_read_transaction_begin_def
      mem_read_transaction_get_def kv_ok_def split: option.splits)

lemma mem_ro_snapshotGet_latest:
  assumes "\<not> ro_cancelled_m r" "\<not> ro_reset_m r" "ro_client_handle_m r"
    "ro_read_version_m r = None"
  shows "fst (ro_snapshotGet mem_client k r e) = Inr (value_at (history e) (commit_counter e) k)"
  using assms
  by (simp add: ro_snapshotGet_def mem_client_def mem_read_transaction_begin_def
      mem_read_transaction_get_def kv_ok_def split: option.splits)

lemma ensureTransaction_error:
  "ensureTransaction cl t e = (Inl err, t1, e1) \<Longrightarrow> err = kIOError"
  by (auto simp: ensureTransaction_def split: if_splits prod.splits option.splits)

lemma mem_commit_conflict_store:
  assumes "commit mem_client now t e = (Inl kConflict, t1, e1)"
  shows "history e1 = history e \<and> commit_counter e1 = commit_counter e"
proof -
  from assms have g: "\<not> cancelled_m t" "\<not> reset_m t" "\<not> committed_m t"
    by (auto simp: commit_def split: if_splits)
  obtain r t0 e0 where et: "ensureTransaction mem_client (t\<lparr>committed_m := True\<rparr>) e = (r, t0, e0)"
    by (cases "ensureTransaction mem_client (t\<lparr>committed_m := True\<rparr>) e") auto
  from mem_ensureTransaction[OF et] have h: "history e0 = history e"
    "commit_counter e0 = commit_counter e" by simp_all
  from assms g et ensureTransaction_error[of mem_client "t\<lparr>committed_m := True\<rparr>" e _ t0 e0]
  have "r = Inr ()"
    by (cases r) (auto simp: commit_def)
  with assms g et obtain res where
    mc: "mem_transaction_commit (transaction_handle_m t0) e0 = (res, e1)" and "\<not> success res"
    by (auto simp: commit_def mem_client_def split: if_splits prod.splits)
  then have "history e1 = history e0 \<and> commit_counter e1 = commit_counter e0"
    by (auto simp: mem_transaction_commit_def kv_ok_def split: option.splits if_splits)
  with h show ?thesis by simp
qed


section \<open>Reads\<close>

lemma get_swallows_failure:
  assumes "\<not> finished t"
    and "ensureTransaction cl t e = (Inr (), t1, e1)"
    and "\<not> success (fst (fst (kv_transaction_get cl (transaction_handle_m t1) k e1)))"
  shows "fst (get cl k t e) = Inr None"
  using assms by (auto simp: get_def split: prod.splits option.splits)

lemma snapshotGet_swallows_failure:
  assumes "\<not> finished t" and "client_handle_m t"
    and "kv_read_transaction_begin cl (case read_version_m t of None \<Rightarrow> 0 | Some v \<Rightarrow> v) e =
           (Some h, e1)"
    and "\<not> success (fst (fst (kv_read_transaction_get cl (Some h) k e1)))"
  shows "fst (snapshotGet cl k t e) = Inr None"
  using assms by (auto simp: snapshotGet_def split: prod.splits option.splits)

lemma ro_snapshotGet_swallows_failure:
  assumes "\<not> ro_cancelled_m r" "\<not> ro_reset_m r" and "ro_client_handle_m r"
    and "kv_read_transaction_begin cl
           (case ro_read_version_m r of None \<Rightarrow> 0 | Some v \<Rightarrow> v) e = (Some h, e1)"
    and "\<not> success (fst (fst (kv_read_transaction_get cl (Some h) k e1)))"
  shows "fst (ro_snapshotGet cl k r e) = Inr None"
  using assms by (auto simp: ro_snapshotGet_def split: prod.splits option.splits)

text \<open>
  C8 (the code differs). \<^verbatim>\<open>get\<close> and \<^verbatim>\<open>snapshotGet\<close> return a successful
  \<open>None\<close> whenever the engine's result is not a success with data: when the engine's read
  fails (here: a transport failure on every read), all three reads return success with no
  value, not an error. The \<^verbatim>\<open>get\<close> of a read-only handle, a placeholder, returns a
  successful \<open>None\<close> for a key that is present.
\<close>

theorem read_failure_is_returned_as_none:
  "fst (get (transport_failure mem_client) ''k'' createReadWriteTransaction empty_engine) =
     Inr None \<and>
   fst (snapshotGet (transport_failure mem_client) ''k'' createReadWriteTransaction
          empty_engine) = Inr None \<and>
   fst (ro_snapshotGet (transport_failure mem_client) ''k'' createReadonlyTransaction
          empty_engine) = Inr None \<and>
   value_at (history one_key_engine) (commit_counter one_key_engine) ''k'' = Some ''v1'' \<and>
   fst (ro_get mem_client ''k'' createReadonlyTransaction one_key_engine) = Inr None"
  by code_simp

text \<open>
  The handle passes bytes through: \<^verbatim>\<open>set\<close> hands the key and the value to the client
  as they are, and \<^verbatim>\<open>get\<close> returns the data of a successful result as it is.
\<close>

lemma set_kv_passes_bytes:
  assumes "\<not> finished t" and "ensureTransaction cl t e = (Inr (), t1, e1)"
  shows "snd (snd (set_kv cl k v t e)) =
           snd (kv_transaction_set cl (transaction_handle_m t1) k v e1)"
  using assms by (simp add: set_kv_def split: prod.splits)

lemma get_returns_engine_data:
  assumes "\<not> finished t" and "ensureTransaction cl t e = (Inr (), t1, e1)"
    and "kv_transaction_get cl (transaction_handle_m t1) k e1 = ((res, Some d), e2)"
    and "success res"
  shows "get cl k t e = (Inr (Some d), t1, e2)"
  using assms by (simp add: get_def)

text \<open>
  C6. On the modelled engine, for all byte strings \<open>k\<close> and \<open>v\<close> (empty ones and ones
  with NUL bytes included): when \<^verbatim>\<open>set(k, v)\<close> and the following \<^verbatim>\<open>commit\<close> succeed,
  then \<^verbatim>\<open>get\<close> on a read-write handle that has not begun its engine transaction, and
  \<^verbatim>\<open>snapshotGet\<close> on a read-write or read-only handle with no read version set, return
  exactly \<open>v\<close>.
\<close>

theorem set_commit_read_back:
  assumes s: "set_kv mem_client k v t e = (Inr (), t1, e1)"
    and c: "commit mem_client now t1 e1 = (Inr (), t2, e2)"
    and g: "\<not> finished tg" "client_handle_m tg" "transaction_handle_m tg = None"
    and sg: "\<not> finished ts" "client_handle_m ts" "read_version_m ts = None"
    and rg: "\<not> ro_cancelled_m r" "\<not> ro_reset_m r" "ro_client_handle_m r"
      "ro_read_version_m r = None"
  shows "fst (get mem_client k tg e2) = Inr (Some v) \<and>
         fst (snapshotGet mem_client k ts e2) = Inr (Some v) \<and>
         fst (ro_snapshotGet mem_client k r e2) = Inr (Some v)"
proof -
  from set_kv_buffers[OF s] have nf: "\<not> finished t1" and b: "buffered_last (MSet k v) t1 e1"
    by simp_all
  from commit_writes_last[OF nf b c]
  have "value_at (history e2) (commit_counter e2) k = Some v" by auto
  then show ?thesis
    using mem_get_fresh[OF g, of k e2] mem_snapshotGet_latest[OF sg, of k e2]
      mem_ro_snapshotGet_latest[OF rg, of k e2] by simp
qed

theorem set_commit_read_back_witness:
  "binary_write = (Inr (), fst (snd binary_write), snd (snd binary_write)) \<and>
   binary_commit = (Inr (), fst (snd binary_commit), snd (snd binary_commit)) \<and>
   fst (get mem_client [CHR ''a'', CHR 0x00, CHR ''b''] createReadWriteTransaction
          (snd (snd binary_commit))) = Inr (Some [CHR 0x00, CHR 0xFF, CHR 0x00]) \<and>
   fst (snapshotGet mem_client [CHR ''a'', CHR 0x00, CHR ''b''] createReadWriteTransaction
          (snd (snd binary_commit))) = Inr (Some [CHR 0x00, CHR 0xFF, CHR 0x00]) \<and>
   fst (ro_snapshotGet mem_client [CHR ''a'', CHR 0x00, CHR ''b''] createReadonlyTransaction
          (snd (snd binary_commit))) = Inr (Some [CHR 0x00, CHR 0xFF, CHR 0x00])"
proof -
  have s: "binary_write = (Inr (), fst (snd binary_write), snd (snd binary_write))"
    by (rule triple_eq) code_simp
  have c: "binary_commit = (Inr (), fst (snd binary_commit), snd (snd binary_commit))"
    by (rule triple_eq) code_simp
  have f: "\<not> finished createReadWriteTransaction" "client_handle_m createReadWriteTransaction"
    "transaction_handle_m createReadWriteTransaction = None"
    "read_version_m createReadWriteTransaction = None"
    by (simp_all add: createReadWriteTransaction_def finished_def)
  have r: "\<not> ro_cancelled_m createReadonlyTransaction" "\<not> ro_reset_m createReadonlyTransaction"
    "ro_client_handle_m createReadonlyTransaction"
    "ro_read_version_m createReadonlyTransaction = None"
    by (simp_all add: createReadonlyTransaction_def)
  note concl = set_commit_read_back
    [OF s[unfolded binary_write_def] c[unfolded binary_commit_def binary_write_def]
       f(1,2,3) f(1,2,4) r,
     folded binary_write_def, folded binary_commit_def]
  show ?thesis
    by (intro conjI) (rule s c concl[THEN conjunct1] concl[THEN conjunct2, THEN conjunct1]
        concl[THEN conjunct2, THEN conjunct2])+
qed


section \<open>Versionstamps\<close>

lemma lex_append_same_length:
  assumes "(xs :: 'a::linorder list) < ys" "length xs = length ys" "length us = length vs"
  shows "xs @ us < ys @ vs"
proof -
  from assms(1,2) have "(xs, ys) \<in> lex {(u, v). u < v}"
    by (simp add: list_less_def lexord_lex)
  then have "(xs @ us, ys @ vs) \<in> lex {(u, v). u < v}"
    using assms(3) by (simp add: lex_append_rightI)
  then show ?thesis
    by (simp add: list_less_def lexord_lex)
qed

lemma char_of_less:
  "(char_of (a::nat) < char_of (b::nat)) = (a mod 256 < b mod 256)"
  by (simp add: less_char_def)

lemma be_bytes_less:
  "x < y \<Longrightarrow> y < 256 ^ n \<Longrightarrow> be_bytes n x < be_bytes n y"
proof (induction n arbitrary: x y)
  case 0
  then show ?case by simp
next
  case (Suc n)
  have yd: "y div 256 < 256 ^ n" using Suc.prems(2) by (simp add: less_mult_imp_div_less mult.commute)
  show ?case
  proof (cases "x div 256 < y div 256")
    case True
    from Suc.IH[OF True yd] show ?thesis
      by (simp add: lex_append_same_length length_be_bytes)
  next
    case False
    with Suc.prems(1) have eq: "x div 256 = y div 256"
      by (metis div_le_mono le_neq_implies_less less_imp_le_nat)
    with Suc.prems(1) have "x mod 256 < y mod 256"
      by (metis add_less_cancel_left mult_div_mod_eq)
    then have "([char_of x], [char_of y]) \<in> lexord {(u :: char, v). u < v}"
      by (simp add: char_of_less)
    then have "(be_bytes n (y div 256) @ [char_of x], be_bytes n (y div 256) @ [char_of y])
                 \<in> lexord {(u :: char, v). u < v}"
      by (rule lexord_append_leftI)
    then show ?thesis using eq
      by (simp add: list_less_def)
  qed
qed


lemma versionstamped_keys_distinct:
  assumes "i < j" "j < 2 ^ 16"
  shows "p @ versionstamp cv i \<noteq> p' @ versionstamp cv j"
proof
  assume "p @ versionstamp cv i = p' @ versionstamp cv j"
  then have "versionstamp cv i = versionstamp cv j"
    by (simp add: append_eq_append_conv length_versionstamp)
  then have "be_bytes 2 i = be_bytes 2 j"
    by (simp add: versionstamp_def)
  moreover from assms have "be_bytes 2 i < be_bytes 2 j"
    by (intro be_bytes_less) simp_all
  ultimately show False by simp
qed

text \<open>
  The bounds are those of the two fields: a sequence number of \<open>2 ^ 16\<close> or a commit
  version of \<open>2 ^ 64\<close> wraps around, and two mutations carry the same versionstamp.
\<close>

lemma be_bytes_wraps: "be_bytes n (x + k * 256 ^ n) = be_bytes n x"
proof (induction n arbitrary: x k)
  case 0
  then show ?case by simp
next
  case (Suc n)
  have e: "x + k * 256 ^ Suc n = x + (k * 256 ^ n) * 256"
    by simp
  have d: "(x + k * 256 ^ Suc n) div 256 = x div 256 + k * 256 ^ n"
    unfolding e by simp
  have m: "(x + k * 256 ^ Suc n) mod 256 = x mod 256"
    unfolding e by (rule mod_mult_self1)
  show ?case
    unfolding be_bytes.simps d m by (simp add: Suc.IH)
qed

lemma versionstamp_wraps:
  "versionstamp cv (i + 2 ^ 16) = versionstamp cv i \<and>
   versionstamp (cv + 2 ^ 64) i = versionstamp cv i"
proof -
  have a: "be_bytes 2 (i + 1 * 256 ^ 2) = be_bytes 2 i"
    by (rule be_bytes_wraps)
  have b: "be_bytes 8 (cv + 1 * 256 ^ 8) = be_bytes 8 cv"
    by (rule be_bytes_wraps)
  have c: "(2::nat) ^ 16 = 1 * 256 ^ 2" "(2::nat) ^ 64 = 1 * 256 ^ 8" by simp_all
  show ?thesis unfolding versionstamp_def c a b by simp
qed

section \<open>Conflict declarations\<close>

lemma addReadConflict_calls_nothing:
  "snd (addReadConflict cl k t e) = (t, e) \<and> snd (addReadConflictRange cl k k' t e) = (t, e)"
  by (simp add: addReadConflict_def addReadConflictRange_def)

text \<open>
  What holds of the claim: \<^verbatim>\<open>get\<close> on a handle that has not begun its engine
  transaction begins it and records the key in the engine's read set, and a handle whose
  read set holds a key written above its read version fails to commit with
  \<^verbatim>\<open>kConflict\<close>.
\<close>

lemma mem_get_records_read:
  assumes "\<not> finished t" "client_handle_m t" "transaction_handle_m t = None"
  shows "\<exists>v t1 e1 x. get mem_client k t e = (Inr v, t1, e1) \<and> \<not> finished t1 \<and>
           transaction_handle_m t1 = Some (next_handle e) \<and>
           transactions e1 (next_handle e) = Some x \<and> k \<in> set (read_keys x) \<and>
           read_version x = commit_counter e \<and> history e1 = history e"
  using assms
  by (simp add: get_def mem_ensureTransaction_fresh)
     (auto simp: mem_client_def mem_transaction_get_def lookup_txn_def kv_ok_def finished_def
        split: option.splits)

lemma read_key_conflict:
  assumes "\<not> finished t" "transaction_handle_m t = Some n" "transactions e n = Some x"
    and "k \<in> set (read_keys x)" "(ver, k, v) \<in> set (history e)" "read_version x < ver"
  shows "fst (commit mem_client now t e) = Inl kConflict"
proof -
  from assms(4,5,6) have "conflicts (history e) x"
    unfolding conflicts_def list_ex_iff by (intro bexI[of _ "(ver, k, v)"]) simp_all
  with assms(1,2,3) show ?thesis
    by (simp add: commit_def finished_def ensureTransaction_def mem_client_def
        mem_transaction_commit_def lookup_txn_def kv_failed_def)
qed

text \<open>
  C1 (the code differs). \<^verbatim>\<open>addReadConflict\<close> and \<^verbatim>\<open>addReadConflictRange\<close> call
  nothing: the declared key never reaches the engine's read set. In the scenario a
  transaction declares a read conflict on \<open>''k''\<close> and on a range that holds it, another
  transaction commits a write to \<open>''k''\<close>, and the first transaction's commit succeeds; with
  \<^verbatim>\<open>get\<close> on \<open>''k''\<close> in place of the declarations the commit fails with
  \<^verbatim>\<open>kConflict\<close>.
\<close>

theorem declared_read_conflict_is_not_checked:
  "declared_conflict_scenario = (Inr (), Inr (), Inr (), Inr (), Inr ()) \<and>
   read_conflict_scenario = (Inr (), Inr (), Inl kConflict)"
  by code_simp

section \<open>Snapshots of a read-only handle\<close>

text \<open>
  C2 (the code differs). Every \<^verbatim>\<open>snapshotGet\<close> of a read-only handle begins a read
  transaction of its own, at \<^verbatim>\<open>read_version_.value_or(0)\<close>. With no read version set
  the two reads of one handle are two snapshots: after another transaction commits
  \<open>''v2''\<close> between them, the unchanged handle reads \<open>''v1''\<close> and then \<open>''v2''\<close>.
\<close>

theorem snapshot_reads_differ_within_one_handle:
  "fst snapshot_scenario_first = Inr (Some ''v1'') \<and>
   fst (snd snapshot_scenario_first) = createReadonlyTransaction \<and>
   fst snapshot_scenario_second = Inr (Some ''v2'')"
  by code_simp

section \<open>Versionstamped writes\<close>










section \<open>The committed version\<close>









section \<open>Conflicts at commit\<close>


lemma commit_conflict_iff:
  "fst (commit cl now t e) = Inl kConflict \<longleftrightarrow>
     (\<not> cancelled_m t \<and> \<not> reset_m t \<and> \<not> committed_m t \<and>
      (case ensureTransaction cl (t\<lparr>committed_m := True\<rparr>) e of
         (Inl err, t1, e1) \<Rightarrow> False
       | (Inr u, t1, e1) \<Rightarrow>
           \<not> success (fst (kv_transaction_commit cl (transaction_handle_m t1) e1)) \<and>
           error_code (fst (kv_transaction_commit cl (transaction_handle_m t1) e1)) =
             KV_ERROR_TRANSACTION_CONFLICT))"
  by (auto simp: commit_def ensureTransaction_def
      split: prod.splits sum.splits kv_error_code.splits option.splits if_splits)

text \<open>
  C5. \<^verbatim>\<open>commit\<close> returns \<^verbatim>\<open>kConflict\<close> exactly when the handle is live and not yet
  marked committed, its engine transaction is available, and the engine's commit fails with
  \<^verbatim>\<open>KV_ERROR_TRANSACTION_CONFLICT\<close>, whatever the client. On the modelled engine such
  a commit leaves the committed writes and the commit counter as they were, and the error
  kind Conflict is one a caller retries.
\<close>

theorem commit_conflict:
  "(fst (commit cl now t e) = Inl kConflict \<longleftrightarrow>
     (\<not> cancelled_m t \<and> \<not> reset_m t \<and> \<not> committed_m t \<and>
      (case ensureTransaction cl (t\<lparr>committed_m := True\<rparr>) e of
         (Inl err, t1, e1) \<Rightarrow> False
       | (Inr u, t1, e1) \<Rightarrow>
           \<not> success (fst (kv_transaction_commit cl (transaction_handle_m t1) e1)) \<and>
           error_code (fst (kv_transaction_commit cl (transaction_handle_m t1) e1)) =
             KV_ERROR_TRANSACTION_CONFLICT))) \<and>
   (fst (commit mem_client now tm em) = Inl kConflict \<longrightarrow>
      history (snd (snd (commit mem_client now tm em))) = history em \<and>
      commit_counter (snd (snd (commit mem_client now tm em))) = commit_counter em) \<and>
   error_kind_of kConflict = Some Conflict \<and> retriable idempotent Conflict"
proof -
  have "fst (commit mem_client now tm em) = Inl kConflict \<longrightarrow>
      history (snd (snd (commit mem_client now tm em))) = history em \<and>
      commit_counter (snd (snd (commit mem_client now tm em))) = commit_counter em"
  proof
    assume a: "fst (commit mem_client now tm em) = Inl kConflict"
    show "history (snd (snd (commit mem_client now tm em))) = history em \<and>
      commit_counter (snd (snd (commit mem_client now tm em))) = commit_counter em"
      by (rule mem_commit_conflict_store[OF triple_eq[OF a]])
  qed
  then show ?thesis
    using commit_conflict_iff[of cl now t e] by simp
qed

theorem commit_conflict_witness:
  "fst (commit mem_client 0 (fst (snd conflicting_handle)) (snd (snd conflicting_handle))) =
     Inl kConflict \<and>
   history (snd (snd (commit mem_client 0 (fst (snd conflicting_handle))
     (snd (snd conflicting_handle))))) = history (snd (snd conflicting_handle)) \<and>
   commit_counter (snd (snd (commit mem_client 0 (fst (snd conflicting_handle))
     (snd (snd conflicting_handle))))) = commit_counter (snd (snd conflicting_handle)) \<and>
   history (snd (snd conflicting_handle)) = [(1, ''k'', Some ''v'')]"
proof -
  have c: "fst (commit mem_client 0 (fst (snd conflicting_handle))
             (snd (snd conflicting_handle))) = Inl kConflict"
    by code_simp
  have h: "history (snd (snd conflicting_handle)) = [(1, ''k'', Some ''v'')]"
    by code_simp
  note th = commit_conflict[where tm = "fst (snd conflicting_handle)"
      and em = "snd (snd conflicting_handle)" and now = 0,
      THEN conjunct2, THEN conjunct1, rule_format, OF c]
  show ?thesis
    by (intro conjI) (rule c h th[THEN conjunct1] th[THEN conjunct2])+
qed

section \<open>Range reads\<close>


lemma static_cast_size_t_int32:
  assumes "- (2 ^ 31) \<le> l" "l < 2 ^ 31" "n < 2 ^ 63"
  shows "(n = static_cast_size_t l) = (int n = l)"
proof (cases "0 \<le> l")
  case True
  with assms have "l mod 2 ^ 64 = l" by simp
  then show ?thesis using True by (auto simp: static_cast_size_t_def)
next
  case False
  have "l mod 2 ^ 64 = (l + 2 ^ 64) mod 2 ^ 64" by simp
  also have "\<dots> = l + 2 ^ 64"
    using assms False by (intro mod_pos_pos_trivial) simp_all
  finally have "l mod 2 ^ 64 = l + 2 ^ 64" .
  then show ?thesis using False assms by (auto simp: static_cast_size_t_def)
qed

lemma getRange_result:
  assumes "getRange cl b en limit t e = (Inr res, t1, e2)"
  shows "\<exists>e1 result. ensureTransaction cl t e = (Inr (), t1, e1) \<and>
      kv_transaction_get_range cl (transaction_handle_m t1) (key b) (key en)
        0 (if inclusive b then 0 else 1) 0 (if inclusive en then 1 else 0) limit e1 =
        ((result, kvs res), e2) \<and>
      success result \<and>
      hasMore res = (kv_pair_array_free cl (kvs res) \<noteq> 0 \<and>
                     kv_pair_array_free cl (kvs res) = static_cast_size_t limit)"
  using assms
  by (auto simp: getRange_def split: if_splits prod.splits sum.splits)

lemma ro_snapshotGetRange_result:
  assumes "ro_snapshotGetRange cl b en limit r e = (Inr res, r1, e3)"
  shows "\<exists>h e1 e2 result.
      kv_read_transaction_begin cl (case ro_read_version_m r of None \<Rightarrow> 0 | Some v \<Rightarrow> v) e =
        (Some h, e1) \<and>
      kv_read_transaction_get_range cl (Some h) (key b) (key en)
        0 (if inclusive b then 0 else 1) 0 (if inclusive en then 1 else 0) limit e1 =
        ((result, kvs res), e2) \<and>
      success result \<and>
      hasMore res = (kv_pair_array_free cl (kvs res) = static_cast_size_t limit)"
  using assms
  by (auto simp: ro_snapshotGetRange_def split: if_splits prod.splits sum.splits option.splits)

lemma map_fst_map_filter:
  "map fst (List.map_filter (\<lambda>k. map_option (Pair k) (g k)) xs) = filter (\<lambda>k. g k \<noteq> None) xs"
  by (induction xs) (auto simp: List.map_filter_simps split: option.splits)

lemma map_fst_range_at:
  "map fst (range_at h rv b bo en eo) =
     filter (\<lambda>k. value_at h rv k \<noteq> None)
       (sort (filter (selected b bo en eo) (remdups (map (\<lambda>w. fst (snd w)) h))))"
  by (simp add: range_at_def map_fst_map_filter)

lemma sorted_range_at: "sorted (map fst (range_at h rv b bo en eo))"
  by (simp add: map_fst_range_at sorted_wrt_filter)

lemma distinct_range_at: "distinct (map fst (range_at h rv b bo en eo))"
  by (simp add: map_fst_range_at)

lemma value_at_Some_key:
  "value_at h rv k = Some v \<Longrightarrow> k \<in> (\<lambda>w. fst (snd w)) ` set h"
  by (induction h rv k rule: value_at.induct) (auto split: if_splits)

lemma set_map_filter_Pair:
  "(k, v) \<in> set (List.map_filter (\<lambda>k. map_option (Pair k) (g k)) xs) \<longleftrightarrow>
     k \<in> set xs \<and> g k = Some v"
  by (induction xs) (auto simp: List.map_filter_simps split: option.splits)

lemma set_range_at:
  "(k, v) \<in> set (range_at h rv b bo en eo) \<longleftrightarrow>
     selected b bo en eo k \<and> value_at h rv k = Some v"
  using value_at_Some_key[of h rv k v]
  by (auto simp: range_at_def set_map_filter_Pair)

lemma mem_transaction_get_range_page:
  "mem_transaction_get_range h bk ek bof bo eof eo limit e1 = ((result, page), e2) \<Longrightarrow>
   success result \<Longrightarrow>
   \<exists>rv. page = take (nat limit) (range_at (history e1) rv bk bo ek eo)"
  by (auto simp: mem_transaction_get_range_def kv_failed_def split: option.splits prod.splits)

lemma mem_read_transaction_get_range_page:
  "mem_read_transaction_get_range h bk ek bof bo eof eo limit e1 = ((result, page), e2) \<Longrightarrow>
   success result \<Longrightarrow>
   \<exists>rv. page = take (nat limit) (range_at (history e1) rv bk bo ek eo)"
  by (auto simp: mem_read_transaction_get_range_def kv_failed_def
      split: option.splits prod.splits)

lemma mem_getRange_page:
  assumes "getRange mem_client b en limit t e = (Inr res, t1, e2)"
  shows "\<exists>rv. kvs res = take (nat limit)
           (range_at (history e) rv (key b) (if inclusive b then 0 else 1)
              (key en) (if inclusive en then 1 else 0))"
proof -
  from getRange_result[OF assms] obtain e1 result where
    et: "ensureTransaction mem_client t e = (Inr (), t1, e1)" and
    gr: "mem_transaction_get_range (transaction_handle_m t1) (key b) (key en)
        0 (if inclusive b then 0 else 1) 0 (if inclusive en then 1 else 0) limit e1 =
        ((result, kvs res), e2)" and s: "success result"
    by (auto simp: mem_client_def)
  from mem_ensureTransaction[OF et] have h: "history e1 = history e" by simp
  from mem_transaction_get_range_page[OF gr s] h show ?thesis by simp
qed

lemma mem_ro_snapshotGetRange_page:
  assumes "ro_snapshotGetRange mem_client b en limit r e = (Inr res, r1, e3)"
  shows "\<exists>rv. kvs res = take (nat limit)
           (range_at (history e) rv (key b) (if inclusive b then 0 else 1)
              (key en) (if inclusive en then 1 else 0))"
proof -
  from ro_snapshotGetRange_result[OF assms] obtain h e1 e2 result where
    bg: "mem_read_transaction_begin (case ro_read_version_m r of None \<Rightarrow> 0 | Some v \<Rightarrow> v) e =
        (Some h, e1)" and
    gr: "mem_read_transaction_get_range (Some h) (key b) (key en)
        0 (if inclusive b then 0 else 1) 0 (if inclusive en then 1 else 0) limit e1 =
        ((result, kvs res), e2)" and s: "success result"
    by (auto simp: mem_client_def)
  from bg have h: "history e1 = history e"
    by (auto simp: mem_read_transaction_begin_def)
  from mem_read_transaction_get_range_page[OF gr s] h show ?thesis by simp
qed

lemma page_properties:
  assumes "page = take (nat limit) (range_at h rv b bo en eo)"
  shows "sorted (map fst page) \<and> distinct (map fst page) \<and> int (length page) \<le> max 0 limit \<and>
         (\<forall>p \<in> set page. selected b bo en eo (fst p) \<and> value_at h rv (fst p) = Some (snd p))"
proof -
  have "sorted (map fst page)"
    unfolding assms take_map[symmetric] using sorted_range_at by (rule sorted_wrt_take)
  moreover have "distinct (map fst page)"
    unfolding assms take_map[symmetric] using distinct_range_at by (rule distinct_take)
  moreover have "int (length page) \<le> max 0 limit" by (simp add: assms)
  moreover have "\<forall>p \<in> set page. selected b bo en eo (fst p) \<and>
      value_at h rv (fst p) = Some (snd p)"
  proof
    fix p assume "p \<in> set page"
    then have "(fst p, snd p) \<in> set (range_at h rv b bo en eo)"
      unfolding assms by (auto dest: in_set_takeD)
    then show "selected b bo en eo (fst p) \<and> value_at h rv (fst p) = Some (snd p)"
      by (simp only: set_range_at)
  qed
  ultimately show ?thesis by blast
qed

lemma page_of_rangeI:
  assumes "\<exists>rv. page = take (nat limit)
        (range_at (history e) rv (key b) (if inclusive b then 0 else 1)
           (key en) (if inclusive en then 1 else 0))"
  shows "page_of_range e b en limit page"
  using assms page_properties unfolding page_of_range_def by blast

text \<open>
  The flag of a range read does not look at the range. Whatever count the free leaves
  (\<open>f\<close>), a page of one pair asked of the store that holds one key and of the store that
  holds two gives the same result, flag included: the two pages are the same array.
\<close>

lemma getRange_with_free:
  "getRange (with_free f cl) b en limit t e =
     (case getRange cl b en limit t e of
        (Inr res, t1, e2) \<Rightarrow>
          (Inr (res\<lparr>hasMore := (f (kvs res) \<noteq> 0 \<and> f (kvs res) = static_cast_size_t limit)\<rparr>),
           t1, e2)
      | (Inl err, t1, e2) \<Rightarrow> (Inl err, t1, e2))"
  by (simp add: getRange_def with_free_def ensureTransaction_def
      split: prod.splits sum.splits option.splits)

lemma range_page_one:
  "getRange mem_client \<lparr>key = ''a'', inclusive = True\<rparr> \<lparr>key = ''z'', inclusive = False\<rparr> 1
      createReadWriteTransaction one_key_engine =
     (Inr \<lparr>kvs = [(''k'', ''v1'')], hasMore = True\<rparr>, fst (snd range_scenario),
      snd (snd range_scenario))"
  unfolding range_scenario_def by (rule triple_eq) code_simp

lemma range_page_two:
  "fst (getRange mem_client \<lparr>key = ''a'', inclusive = True\<rparr> \<lparr>key = ''z'', inclusive = False\<rparr> 1
      createReadWriteTransaction two_key_engine) =
     Inr \<lparr>kvs = [(''k'', ''v1'')], hasMore = True\<rparr>"
  by code_simp

lemma has_more_ignores_the_range:
  "fst (getRange (with_free f mem_client) \<lparr>key = ''a'', inclusive = True\<rparr>
          \<lparr>key = ''z'', inclusive = False\<rparr> 1 createReadWriteTransaction one_key_engine) =
   fst (getRange (with_free f mem_client) \<lparr>key = ''a'', inclusive = True\<rparr>
          \<lparr>key = ''z'', inclusive = False\<rparr> 1 createReadWriteTransaction two_key_engine) \<and>
   range_at (history one_key_engine) (commit_counter one_key_engine) ''a'' 0 ''z'' 0 =
     [(''k'', ''v1'')] \<and>
   range_at (history two_key_engine) (commit_counter two_key_engine) ''a'' 0 ''z'' 0 =
     [(''k'', ''v1''), (''m'', ''v2'')]"
proof -
  have a: "fst (getRange (with_free f mem_client) \<lparr>key = ''a'', inclusive = True\<rparr>
          \<lparr>key = ''z'', inclusive = False\<rparr> 1 createReadWriteTransaction one_key_engine) =
      Inr \<lparr>kvs = [(''k'', ''v1'')],
           hasMore = (f [(''k'', ''v1'')] \<noteq> 0 \<and> f [(''k'', ''v1'')] = static_cast_size_t 1)\<rparr>"
    using range_page_one by (simp add: getRange_with_free)
  have b: "fst (getRange (with_free f mem_client) \<lparr>key = ''a'', inclusive = True\<rparr>
          \<lparr>key = ''z'', inclusive = False\<rparr> 1 createReadWriteTransaction two_key_engine) =
      Inr \<lparr>kvs = [(''k'', ''v1'')],
           hasMore = (f [(''k'', ''v1'')] \<noteq> 0 \<and> f [(''k'', ''v1'')] = static_cast_size_t 1)\<rparr>"
    using range_page_two
    by (cases "getRange mem_client \<lparr>key = ''a'', inclusive = True\<rparr>
          \<lparr>key = ''z'', inclusive = False\<rparr> 1 createReadWriteTransaction two_key_engine")
       (simp add: getRange_with_free)
  have c: "range_at (history one_key_engine) (commit_counter one_key_engine) ''a'' 0 ''z'' 0 =
     [(''k'', ''v1'')]" by code_simp
  have d: "range_at (history two_key_engine) (commit_counter two_key_engine) ''a'' 0 ''z'' 0 =
     [(''k'', ''v1''), (''m'', ''v2'')]" by code_simp
  show ?thesis using a b c d by simp
qed

text \<open>
  C7, as stated, fails, whatever \<^verbatim>\<open>kv_pair_array_free\<close> leaves in the count. With a
  free that leaves the count as it is: the range holds one pair, a page of limit 1 returns
  it, and \<^verbatim>\<open>hasMore\<close> is true although the range holds no further key. With a free
  that clears the count: the range holds two pairs, a page of limit 1 returns the first, and
  \<^verbatim>\<open>hasMore\<close> is false although the range holds a further key.
\<close>

theorem has_more_is_not_about_the_range:
  "fst range_scenario = Inr \<lparr>kvs = [(''k'', ''v1'')], hasMore = True\<rparr> \<and>
   range_at (history one_key_engine) (commit_counter one_key_engine) ''a'' 0 ''z'' 0 =
     [(''k'', ''v1'')] \<and>
   fst cleared_range_scenario = Inr \<lparr>kvs = [(''k'', ''v1'')], hasMore = False\<rparr> \<and>
   range_at (history two_key_engine) (commit_counter two_key_engine) ''a'' 0 ''z'' 0 =
     [(''k'', ''v1''), (''m'', ''v2'')]"
  by code_simp

text \<open>
  C7, amended. For a 32-bit \<open>limit\<close> and whatever the client, a successful
  \<^verbatim>\<open>getRange\<close> (and \<^verbatim>\<open>snapshotGetRange\<close>, which is the same call) on a read-write
  handle returns the engine's page as it is, with \<^verbatim>\<open>hasMore\<close> true exactly when the
  count that \<^verbatim>\<open>kv_pair_array_free\<close> leaves in the pair array is not 0 and equals
  \<open>limit\<close>: with a free that leaves the count at the number of pairs, exactly when the
  page is not empty and holds \<open>limit\<close> pairs; with a free that clears the count, never. A
  successful \<^verbatim>\<open>snapshotGetRange\<close> on a read-only handle returns the engine's page with
  \<^verbatim>\<open>hasMore\<close> true exactly when that count equals \<open>limit\<close> (stated for a count or a
  limit that is not 0): with a free that leaves the count at the number of pairs, exactly
  when the page holds \<open>limit\<close> pairs. On the modelled engine the page is the first
  \<open>limit\<close> pairs of the selected range in key order.
\<close>

theorem range_page_and_has_more:
  "(getRange cl b en limit t e = (Inr res, t1, e2) \<and>
    - (2 ^ 31) \<le> limit \<and> limit < 2 ^ 31 \<and> kv_pair_array_free cl (kvs res) < 2 ^ 63 \<longrightarrow>
      (\<exists>e1 result. ensureTransaction cl t e = (Inr (), t1, e1) \<and>
         kv_transaction_get_range cl (transaction_handle_m t1) (key b) (key en)
           0 (if inclusive b then 0 else 1) 0 (if inclusive en then 1 else 0) limit e1 =
           ((result, kvs res), e2) \<and> success result) \<and>
      hasMore res = (kv_pair_array_free cl (kvs res) \<noteq> 0 \<and>
                     int (kv_pair_array_free cl (kvs res)) = limit) \<and>
      (kv_pair_array_free cl (kvs res) = length (kvs res) \<longrightarrow>
         hasMore res = (kvs res \<noteq> [] \<and> int (length (kvs res)) = limit)) \<and>
      (kv_pair_array_free cl (kvs res) = 0 \<longrightarrow> \<not> hasMore res)) \<and>
   snapshotGetRange cl b en limit t e = getRange cl b en limit t e \<and>
   (ro_snapshotGetRange cl b en limit r e = (Inr res', r1, e3) \<and>
    - (2 ^ 31) \<le> limit \<and> limit < 2 ^ 31 \<and> kv_pair_array_free cl (kvs res') < 2 ^ 63 \<and>
    (kv_pair_array_free cl (kvs res') \<noteq> 0 \<or> limit \<noteq> 0) \<longrightarrow>
      (\<exists>h e1 e2' result.
         kv_read_transaction_begin cl
           (case ro_read_version_m r of None \<Rightarrow> 0 | Some v \<Rightarrow> v) e = (Some h, e1) \<and>
         kv_read_transaction_get_range cl (Some h) (key b) (key en)
           0 (if inclusive b then 0 else 1) 0 (if inclusive en then 1 else 0) limit e1 =
           ((result, kvs res'), e2') \<and> success result) \<and>
      hasMore res' = (int (kv_pair_array_free cl (kvs res')) = limit) \<and>
      (kv_pair_array_free cl (kvs res') = length (kvs res') \<longrightarrow>
         hasMore res' = (int (length (kvs res')) = limit))) \<and>
   (getRange mem_client b en limit tm em = (Inr resm, tm1, em2) \<or>
    ro_snapshotGetRange mem_client b en limit rm em = (Inr resm, rm1, em2) \<longrightarrow>
      page_of_range em b en limit (kvs resm))"
proof (intro conjI impI)
  assume a: "getRange cl b en limit t e = (Inr res, t1, e2) \<and>
    - (2 ^ 31) \<le> limit \<and> limit < 2 ^ 31 \<and> kv_pair_array_free cl (kvs res) < 2 ^ 63"
  from getRange_result[of cl b en limit t e res t1 e2] a
  show "\<exists>e1 result. ensureTransaction cl t e = (Inr (), t1, e1) \<and>
         kv_transaction_get_range cl (transaction_handle_m t1) (key b) (key en)
           0 (if inclusive b then 0 else 1) 0 (if inclusive en then 1 else 0) limit e1 =
           ((result, kvs res), e2) \<and> success result"
    by blast
  from getRange_result[of cl b en limit t e res t1 e2] a
  have "hasMore res = (kv_pair_array_free cl (kvs res) \<noteq> 0 \<and>
                       kv_pair_array_free cl (kvs res) = static_cast_size_t limit)"
    by blast
  with a show hm: "hasMore res = (kv_pair_array_free cl (kvs res) \<noteq> 0 \<and>
                     int (kv_pair_array_free cl (kvs res)) = limit)"
    by (simp add: static_cast_size_t_int32)
  {
    assume "kv_pair_array_free cl (kvs res) = length (kvs res)"
    with hm show "hasMore res = (kvs res \<noteq> [] \<and> int (length (kvs res)) = limit)" by simp
  }
  {
    assume "kv_pair_array_free cl (kvs res) = 0"
    with hm show "\<not> hasMore res" by simp
  }
next
  show "snapshotGetRange cl b en limit t e = getRange cl b en limit t e"
    by (simp add: snapshotGetRange_def)
next
  assume a: "ro_snapshotGetRange cl b en limit r e = (Inr res', r1, e3) \<and>
    - (2 ^ 31) \<le> limit \<and> limit < 2 ^ 31 \<and> kv_pair_array_free cl (kvs res') < 2 ^ 63 \<and>
    (kv_pair_array_free cl (kvs res') \<noteq> 0 \<or> limit \<noteq> 0)"
  from ro_snapshotGetRange_result[of cl b en limit r e res' r1 e3] a
  show "\<exists>h e1 e2' result.
         kv_read_transaction_begin cl
           (case ro_read_version_m r of None \<Rightarrow> 0 | Some v \<Rightarrow> v) e = (Some h, e1) \<and>
         kv_read_transaction_get_range cl (Some h) (key b) (key en)
           0 (if inclusive b then 0 else 1) 0 (if inclusive en then 1 else 0) limit e1 =
           ((result, kvs res'), e2') \<and> success result"
    by blast
  from ro_snapshotGetRange_result[of cl b en limit r e res' r1 e3] a
  have "hasMore res' = (kv_pair_array_free cl (kvs res') = static_cast_size_t limit)"
    by blast
  with a show hm: "hasMore res' = (int (kv_pair_array_free cl (kvs res')) = limit)"
    by (simp add: static_cast_size_t_int32)
  {
    assume "kv_pair_array_free cl (kvs res') = length (kvs res')"
    with hm show "hasMore res' = (int (length (kvs res')) = limit)" by simp
  }
next
  assume "getRange mem_client b en limit tm em = (Inr resm, tm1, em2) \<or>
    ro_snapshotGetRange mem_client b en limit rm em = (Inr resm, rm1, em2)"
  then show "page_of_range em b en limit (kvs resm)"
    using mem_getRange_page[of b en limit tm em resm tm1 em2]
      mem_ro_snapshotGetRange_page[of b en limit rm em resm rm1 em2]
    by (auto intro: page_of_rangeI)
qed

theorem range_page_and_has_more_witness:
  "getRange mem_client \<lparr>key = ''a'', inclusive = True\<rparr> \<lparr>key = ''z'', inclusive = False\<rparr> 1
       createReadWriteTransaction one_key_engine =
     (Inr \<lparr>kvs = [(''k'', ''v1'')], hasMore = True\<rparr>, fst (snd range_scenario),
      snd (snd range_scenario)) \<and>
   kv_pair_array_free mem_client (kvs \<lparr>kvs = [(''k'', ''v1'')], hasMore = True\<rparr>) =
     length (kvs \<lparr>kvs = [(''k'', ''v1'')], hasMore = True\<rparr>) \<and>
   hasMore \<lparr>kvs = [(''k'', ''v1'')], hasMore = True\<rparr> =
     (kvs \<lparr>kvs = [(''k'', ''v1'')], hasMore = True\<rparr> \<noteq> [] \<and>
      int (length (kvs \<lparr>kvs = [(''k'', ''v1'')], hasMore = True\<rparr>)) = 1) \<and>
   page_of_range one_key_engine \<lparr>key = ''a'', inclusive = True\<rparr>
     \<lparr>key = ''z'', inclusive = False\<rparr> 1 (kvs \<lparr>kvs = [(''k'', ''v1'')], hasMore = True\<rparr>) \<and>
   ro_snapshotGetRange mem_client \<lparr>key = ''a'', inclusive = True\<rparr>
       \<lparr>key = ''z'', inclusive = False\<rparr> 1 createReadonlyTransaction one_key_engine =
     (Inr \<lparr>kvs = [(''k'', ''v1'')], hasMore = True\<rparr>, fst (snd ro_range_scenario),
      snd (snd ro_range_scenario)) \<and>
   hasMore \<lparr>kvs = [(''k'', ''v1'')], hasMore = True\<rparr> =
     (int (length (kvs \<lparr>kvs = [(''k'', ''v1'')], hasMore = True\<rparr>)) = 1) \<and>
   getRange (with_free (\<lambda>p. 0) mem_client) \<lparr>key = ''a'', inclusive = True\<rparr>
       \<lparr>key = ''z'', inclusive = False\<rparr> 1 createReadWriteTransaction two_key_engine =
     (Inr \<lparr>kvs = [(''k'', ''v1'')], hasMore = False\<rparr>, fst (snd cleared_range_scenario),
      snd (snd cleared_range_scenario)) \<and>
   kv_pair_array_free (with_free (\<lambda>p. 0) mem_client)
       (kvs \<lparr>kvs = [(''k'', ''v1'')], hasMore = False\<rparr>) = 0 \<and>
   \<not> hasMore \<lparr>kvs = [(''k'', ''v1'')], hasMore = False\<rparr>"
proof -
  have s: "getRange mem_client \<lparr>key = ''a'', inclusive = True\<rparr>
       \<lparr>key = ''z'', inclusive = False\<rparr> 1 createReadWriteTransaction one_key_engine =
     (Inr \<lparr>kvs = [(''k'', ''v1'')], hasMore = True\<rparr>, fst (snd range_scenario),
      snd (snd range_scenario))"
    unfolding range_scenario_def by (rule triple_eq) code_simp
  have sr: "ro_snapshotGetRange mem_client \<lparr>key = ''a'', inclusive = True\<rparr>
       \<lparr>key = ''z'', inclusive = False\<rparr> 1 createReadonlyTransaction one_key_engine =
     (Inr \<lparr>kvs = [(''k'', ''v1'')], hasMore = True\<rparr>, fst (snd ro_range_scenario),
      snd (snd ro_range_scenario))"
    unfolding ro_range_scenario_def by (rule triple_eq) code_simp
  have sc: "getRange (with_free (\<lambda>p. 0) mem_client) \<lparr>key = ''a'', inclusive = True\<rparr>
       \<lparr>key = ''z'', inclusive = False\<rparr> 1 createReadWriteTransaction two_key_engine =
     (Inr \<lparr>kvs = [(''k'', ''v1'')], hasMore = False\<rparr>, fst (snd cleared_range_scenario),
      snd (snd cleared_range_scenario))"
    unfolding cleared_range_scenario_def by (rule triple_eq) code_simp
  have fr: "kv_pair_array_free mem_client (kvs \<lparr>kvs = [(''k'', ''v1'')], hasMore = True\<rparr>) =
     length (kvs \<lparr>kvs = [(''k'', ''v1'')], hasMore = True\<rparr>)"
    by (simp add: mem_client_def mem_pair_array_free_def)
  have fc: "kv_pair_array_free (with_free (\<lambda>p. 0) mem_client)
       (kvs \<lparr>kvs = [(''k'', ''v1'')], hasMore = False\<rparr>) = 0"
    by (simp add: with_free_def)
  note th = range_page_and_has_more
    [where cl = mem_client and b = "\<lparr>key = ''a'', inclusive = True\<rparr>"
       and en = "\<lparr>key = ''z'', inclusive = False\<rparr>" and limit = 1
       and t = createReadWriteTransaction and e = one_key_engine
       and res = "\<lparr>kvs = [(''k'', ''v1'')], hasMore = True\<rparr>"
       and ?t1.0 = "fst (snd range_scenario)" and ?e2.0 = "snd (snd range_scenario)"
       and tm = createReadWriteTransaction and em = one_key_engine
       and resm = "\<lparr>kvs = [(''k'', ''v1'')], hasMore = True\<rparr>"
       and ?tm1.0 = "fst (snd range_scenario)" and ?em2.0 = "snd (snd range_scenario)"
       and r = createReadonlyTransaction
       and res' = "\<lparr>kvs = [(''k'', ''v1'')], hasMore = True\<rparr>"
       and ?r1.0 = "fst (snd ro_range_scenario)" and ?e3.0 = "snd (snd ro_range_scenario)"]
  note thc = range_page_and_has_more
    [where cl = "with_free (\<lambda>p. 0) mem_client" and b = "\<lparr>key = ''a'', inclusive = True\<rparr>"
       and en = "\<lparr>key = ''z'', inclusive = False\<rparr>" and limit = 1
       and t = createReadWriteTransaction and e = two_key_engine
       and res = "\<lparr>kvs = [(''k'', ''v1'')], hasMore = False\<rparr>"
       and ?t1.0 = "fst (snd cleared_range_scenario)"
       and ?e2.0 = "snd (snd cleared_range_scenario)"]
  have bounds: "- (2 ^ 31) \<le> (1::int) \<and> (1::int) < 2 ^ 31 \<and>
      kv_pair_array_free mem_client (kvs \<lparr>kvs = [(''k'', ''v1'')], hasMore = True\<rparr>) < 2 ^ 63"
    by (simp add: mem_client_def mem_pair_array_free_def)
  have bounds': "- (2 ^ 31) \<le> (1::int) \<and> (1::int) < 2 ^ 31 \<and>
      kv_pair_array_free mem_client (kvs \<lparr>kvs = [(''k'', ''v1'')], hasMore = True\<rparr>) < 2 ^ 63 \<and>
      (kv_pair_array_free mem_client (kvs \<lparr>kvs = [(''k'', ''v1'')], hasMore = True\<rparr>) \<noteq> 0 \<or>
       (1::int) \<noteq> 0)"
    by (simp add: mem_client_def mem_pair_array_free_def)
  have boundsc: "- (2 ^ 31) \<le> (1::int) \<and> (1::int) < 2 ^ 31 \<and>
      kv_pair_array_free (with_free (\<lambda>p. 0) mem_client)
        (kvs \<lparr>kvs = [(''k'', ''v1'')], hasMore = False\<rparr>) < 2 ^ 63"
    by (simp add: with_free_def)
  note a = th[THEN conjunct1, rule_format, OF conjI[OF s bounds], THEN conjunct2,
      THEN conjunct2, THEN conjunct1, rule_format, OF fr]
  note ar = th[THEN conjunct2, THEN conjunct2, THEN conjunct1, rule_format,
      OF conjI[OF sr bounds'], THEN conjunct2, THEN conjunct2, rule_format, OF fr]
  note p = th[THEN conjunct2, THEN conjunct2, THEN conjunct2, rule_format, OF disjI1[OF s]]
  note c = thc[THEN conjunct1, rule_format, OF conjI[OF sc boundsc], THEN conjunct2,
      THEN conjunct2, THEN conjunct2, rule_format, OF fc]
  show ?thesis
    by (intro conjI) (rule s sr sc fr fc a ar p c)+
qed

end
